theory Spec2Isabelle
  imports Main
begin

section \<open>Data model (confirm.types.ts)\<close>

text \<open>
  \<^verbatim>\<open>type?: 'success' | 'error' | 'warning' | 'info'\<close>
\<close>

datatype severity = Success | Error | Warning | Info

text \<open>
  \<^verbatim>\<open>interface ConfirmOptions\<close>: every field is optional, so every field is an option
  (\<open>None\<close> is JavaScript's \<open>undefined\<close>). The record is polymorphic in what stands for a
  function value: the coordinator stores \<open>callback\<close>s, the guard's caller supplies
  identifiers of its own functions, the dialog component receives click handlers.
\<close>

record 'f ConfirmOptions =
  title :: "string option"
  subtitle :: "string option"
  confirmText :: "string option"
  cancelText :: "string option"
  onConfirm :: "'f option"
  onCancel :: "'f option"
  type :: "severity option"

text \<open>
  Function values that reach the coordinator. \<open>External n\<close> is a function supplied by
  a consumer, identified by \<open>n\<close>; all the model knows of it is that it was invoked (its
  body is assumed to return normally and not to call back into the coordinator). \<open>Deferred p v f\<close> is the closure
  \<^verbatim>\<open>() => { resolve(v); f?.(); }\<close> that \<open>usePrompt.confirm\<close> builds around the
  \<open>resolve\<close> function of promise \<open>p\<close>.
\<close>

datatype callback = External nat | Deferred nat bool "nat option"

text \<open>
  The one continuation the source attaches to a promise with \<open>.then\<close>:
  \<^verbatim>\<open>(result) => { if (result) blocker.proceed(); else blocker.reset(); }\<close>
\<close>

datatype continuation = BlockerDecision

text \<open>A promise of a boolean: its settled value, and the reactions waiting for it.\<close>

record promise =
  settled :: "bool option"
  reactions :: "continuation list"

text \<open>
  The routing layer's blocker as the guard sees it: \<open>blocker.state === 'blocked'\<close>, with
  the location the blocked transition wants to reach.
\<close>

datatype blocker_state = Unblocked | Blocked string

text \<open>\<^verbatim>\<open>window.onbeforeunload = () => subtitle\<close>: a function returning a captured string.\<close>

datatype unload_handler = Returns string

text \<open>What the program does that an observer can see, in order.\<close>

datatype event =
    Invoke callback
  | SetConfirm "callback ConfirmOptions option"
  | Toggle bool
  | Proceed
  | Reset

text \<open>
  The state the code reads and writes: the two \<open>useState\<close> cells of \<open>ConfirmProvider\<close>
  (\<open>confirm\<close>, \<open>open\<close>), the promises created so far (a promise is its index), the
  microtask queue, the routing layer's blocker and location, the global
  \<open>window.onbeforeunload\<close> slot, and the trace of observable events.
\<close>

record world =
  confirm :: "callback ConfirmOptions option"
  "open" :: bool
  promises :: "promise list"
  microtasks :: "(continuation \<times> bool) list"
  blocker :: blocker_state
  location :: string
  onbeforeunload :: "unload_handler option"
  trace :: "event list"

text \<open>\<^verbatim>\<open>useState<Nullable<ConfirmOptions>>(null)\<close>, \<^verbatim>\<open>useState(false)\<close>; nothing else has happened.\<close>

definition initial :: "string \<Rightarrow> world" where
  "initial loc =
     \<lparr>confirm = None, open = False, promises = [], microtasks = [],
      blocker = Unblocked, location = loc, onbeforeunload = None, trace = []\<rparr>"

section \<open>Promises and function calls\<close>

definition emit :: "event \<Rightarrow> world \<Rightarrow> world" where
  "emit e w = w\<lparr>trace := trace w @ [e]\<rparr>"

text \<open>\<^verbatim>\<open>new Promise<boolean>((resolve) => ...)\<close>: a fresh pending promise.\<close>

definition new_Promise :: "world \<Rightarrow> nat \<times> world" where
  "new_Promise w =
     (length (promises w),
      w\<lparr>promises := promises w @ [\<lparr>settled = None, reactions = []\<rparr>]\<rparr>)"

text \<open>\<^verbatim>\<open>Promise.resolve(v)\<close>: a fresh promise that is already settled.\<close>

definition Promise_resolve :: "bool \<Rightarrow> world \<Rightarrow> nat \<times> world" where
  "Promise_resolve v w =
     (length (promises w),
      w\<lparr>promises := promises w @ [\<lparr>settled = Some v, reactions = []\<rparr>]\<rparr>)"

text \<open>
  Calling the \<open>resolve\<close> function of promise \<open>p\<close>: the first call settles it and queues
  its reactions as microtasks; a later call does nothing.
\<close>

definition resolve :: "nat \<Rightarrow> bool \<Rightarrow> world \<Rightarrow> world" where
  "resolve p v w =
     (if p < length (promises w) then
        (case settled (promises w ! p) of
           Some _ \<Rightarrow> w
         | None \<Rightarrow>
             w\<lparr>promises := (promises w)[p := \<lparr>settled = Some v, reactions = []\<rparr>],
               microtasks := microtasks w @ map (\<lambda>k. (k, v)) (reactions (promises w ! p))\<rparr>)
      else w)"

text \<open>\<open>p.then(k)\<close>: \<open>k\<close> runs in a microtask once \<open>p\<close> is settled.\<close>

definition Promise_then :: "nat \<Rightarrow> continuation \<Rightarrow> world \<Rightarrow> world" where
  "Promise_then p k w =
     (if p < length (promises w) then
        (case settled (promises w ! p) of
           Some v \<Rightarrow> w\<lparr>microtasks := microtasks w @ [(k, v)]\<rparr>
         | None \<Rightarrow>
             w\<lparr>promises :=
                 (promises w)[p := (promises w ! p)\<lparr>reactions := reactions (promises w ! p) @ [k]\<rparr>]\<rparr>)
      else w)"

definition call_external :: "nat \<Rightarrow> world \<Rightarrow> world" where
  "call_external n w = emit (Invoke (External n)) w"

fun invoke :: "callback \<Rightarrow> world \<Rightarrow> world" where
  "invoke (External n) w = call_external n w"
| "invoke (Deferred p v f) w =
     (let w1 = resolve p v (emit (Invoke (Deferred p v f)) w)
      in case f of None \<Rightarrow> w1 | Some n \<Rightarrow> call_external n w1)"

text \<open>The optional call \<^verbatim>\<open>f?.()\<close>.\<close>

definition opt_invoke :: "callback option \<Rightarrow> world \<Rightarrow> world" where
  "opt_invoke f w = (case f of None \<Rightarrow> w | Some c \<Rightarrow> invoke c w)"

text \<open>The events a call of a callback leaves in the trace.\<close>

definition user_calls :: "nat option \<Rightarrow> event list" where
  "user_calls f = (case f of None \<Rightarrow> [] | Some n \<Rightarrow> [Invoke (External n)])"

fun invocation :: "callback \<Rightarrow> event list" where
  "invocation (External n) = [Invoke (External n)]"
| "invocation (Deferred p v f) = Invoke (Deferred p v f) # user_calls f"

definition optional_invocation :: "callback option \<Rightarrow> event list" where
  "optional_invocation f = (case f of None \<Rightarrow> [] | Some c \<Rightarrow> invocation c)"

section \<open>ConfirmProvider (confirm.provider.tsx)\<close>

definition setConfirm :: "callback ConfirmOptions option \<Rightarrow> world \<Rightarrow> world" where
  "setConfirm r w = emit (SetConfirm r) (w\<lparr>confirm := r\<rparr>)"

definition toggle :: "bool \<Rightarrow> world \<Rightarrow> world" where
  "toggle b w = emit (Toggle b) (w\<lparr>open := b\<rparr>)"

text \<open>
  \<^verbatim>\<open>
  const show = (confirmOptions: Nullable<ConfirmOptions>) => {
      setConfirm(confirmOptions);
      toggle(true);
  }\<close>
\<close>

definition ConfirmProvider_show :: "callback ConfirmOptions option \<Rightarrow> world \<Rightarrow> world" where
  "ConfirmProvider_show confirmOptions w = toggle True (setConfirm confirmOptions w)"

text \<open>
  \<^verbatim>\<open>const onConfirm = () => { confirm?.onConfirm?.(); toggle(false); }\<close>
\<close>

definition ConfirmProvider_onConfirm :: "world \<Rightarrow> world" where
  "ConfirmProvider_onConfirm w =
     toggle False (case confirm w of None \<Rightarrow> w | Some c \<Rightarrow> opt_invoke (onConfirm c) w)"

text \<open>
  \<^verbatim>\<open>const onCancel = () => { confirm?.onCancel?.(); toggle(false); }\<close>
\<close>

definition ConfirmProvider_onCancel :: "world \<Rightarrow> world" where
  "ConfirmProvider_onCancel w =
     toggle False (case confirm w of None \<Rightarrow> w | Some c \<Rightarrow> opt_invoke (onCancel c) w)"

text \<open>
  The operations of the coordinator, and the states reachable with them from the
  initial one.
\<close>

datatype coordinator_op =
    Show "callback ConfirmOptions option"
  | ResolveConfirm
  | ResolveCancel

fun coordinator_step :: "world \<Rightarrow> coordinator_op \<Rightarrow> world" where
  "coordinator_step w (Show r) = ConfirmProvider_show r w"
| "coordinator_step w ResolveConfirm = ConfirmProvider_onConfirm w"
| "coordinator_step w ResolveCancel = ConfirmProvider_onCancel w"

definition coordinator_run :: "coordinator_op list \<Rightarrow> world \<Rightarrow> world" where
  "coordinator_run ops w = foldl coordinator_step w ops"

fun is_Show :: "coordinator_op \<Rightarrow> bool" where
  "is_Show (Show r) = True"
| "is_Show ResolveConfirm = False"
| "is_Show ResolveCancel = False"

text \<open>
  The argument of the latest \<open>show\<close> among the operations; \<open>null\<close>, the initial value of
  the cell, when there was none.
\<close>

fun remember ::
  "callback ConfirmOptions option \<Rightarrow> coordinator_op \<Rightarrow> callback ConfirmOptions option" where
  "remember r (Show r') = r'"
| "remember r ResolveConfirm = r"
| "remember r ResolveCancel = r"

definition latest_request :: "coordinator_op list \<Rightarrow> callback ConfirmOptions option" where
  "latest_request ops = foldl remember None ops"

text \<open>How many requests the coordinator holds: its one cell is empty or full.\<close>

definition stored_requests :: "world \<Rightarrow> nat" where
  "stored_requests w = (case confirm w of None \<Rightarrow> 0 | Some r \<Rightarrow> 1)"

section \<open>The dialog component (Confirm)\<close>

text \<open>
  What a click handler of the rendered dialog is bound to: one of the provider's two
  functions, or a function taken from the stored request.
\<close>

datatype click_handler = ProviderOnConfirm | ProviderOnCancel | Stored callback

text \<open>
  The props \<open>ConfirmProvider\<close> passes down, in JSX order: \<^verbatim>\<open>type="warning"\<close>, then the
  spread \<^verbatim>\<open>{...confirm}\<close> (spreading \<open>null\<close> adds nothing; a field the request leaves
  out keeps the earlier value), then \<^verbatim>\<open>onCancel={onCancel} onConfirm={onConfirm}\<close>, which
  replace whatever the spread brought, and \<^verbatim>\<open>open={open}\<close>.
\<close>

definition Confirm_props :: "world \<Rightarrow> click_handler ConfirmOptions \<times> bool" where
  "Confirm_props w =
     (let spread =
        (case confirm w of
           None \<Rightarrow>
             \<lparr>title = None, subtitle = None, confirmText = None, cancelText = None,
              onConfirm = None, onCancel = None, type = Some Warning\<rparr>
         | Some c \<Rightarrow>
             \<lparr>title = title c, subtitle = subtitle c, confirmText = confirmText c,
              cancelText = cancelText c,
              onConfirm = map_option Stored (onConfirm c),
              onCancel = map_option Stored (onCancel c),
              type = (case type c of None \<Rightarrow> Some Warning | Some t \<Rightarrow> Some t)\<rparr>)
      in (spread\<lparr>onCancel := Some ProviderOnCancel, onConfirm := Some ProviderOnConfirm\<rparr>,
          open w))"

text \<open>
  What \<open>Confirm\<close> renders: the dialog is displayed (class \<open>flex\<close>) or not (class \<open>hidden\<close>),
  the title and subtitle labels, the two button texts, the severity that picks icon and
  colours, and the \<open>onClick\<close> of the close icon, the cancel button and the confirm button.
\<close>

record view =
  visible :: bool
  heading :: "string option"
  message :: "string option"
  cancelLabel :: "string option"
  confirmLabel :: "string option"
  severity_shown :: severity
  closeIcon_onClick :: "click_handler option"
  cancelButton_onClick :: "click_handler option"
  confirmButton_onClick :: "click_handler option"

text \<open>
  \<^verbatim>\<open>function Confirm({ open, title, subtitle, cancelText, confirmText, onCancel, onConfirm,
      type = 'warning' }: Props)\<close>, with
  \<^verbatim>\<open><CloseIcon onClick={onCancel} />\<close>, \<^verbatim>\<open><button onClick={onCancel}>{cancelText}</button>\<close>,
  \<^verbatim>\<open><button onClick={onConfirm}>{confirmText}</button>\<close>.
\<close>

definition Confirm :: "click_handler ConfirmOptions \<Rightarrow> bool \<Rightarrow> view" where
  "Confirm props opn =
     \<lparr>visible = opn,
      heading = title props,
      message = subtitle props,
      cancelLabel = cancelText props,
      confirmLabel = confirmText props,
      severity_shown = (case type props of None \<Rightarrow> Warning | Some t \<Rightarrow> t),
      closeIcon_onClick = onCancel props,
      cancelButton_onClick = onCancel props,
      confirmButton_onClick = onConfirm props\<rparr>"

definition render :: "world \<Rightarrow> view" where
  "render w = (case Confirm_props w of (props, opn) \<Rightarrow> Confirm props opn)"

section \<open>The routing layer\<close>

text \<open>
  Modelled from the spec: the routing-layer collaborator (react-router's blocker), which
  is not part of the repository. \<open>proceed\<close> completes the blocked transition, \<open>reset\<close>
  aborts it and leaves the location as it is; both return the blocker to idle. A
  navigation attempt is blocked exactly when the guard's dirty flag is set, and goes
  through unconditionally otherwise.
\<close>

definition blocker_proceed :: "world \<Rightarrow> world" where
  "blocker_proceed w =
     emit Proceed
       (case blocker w of
          Blocked target \<Rightarrow> w\<lparr>blocker := Unblocked, location := target\<rparr>
        | Unblocked \<Rightarrow> w)"

definition blocker_reset :: "world \<Rightarrow> world" where
  "blocker_reset w = emit Reset (w\<lparr>blocker := Unblocked\<rparr>)"

definition router_navigate :: "bool \<Rightarrow> string \<Rightarrow> world \<Rightarrow> world" where
  "router_navigate shouldBlock target w =
     (case blocker w of
        Blocked t \<Rightarrow> w
      | Unblocked \<Rightarrow>
          if shouldBlock then w\<lparr>blocker := Blocked target\<rparr> else w\<lparr>location := target\<rparr>)"

section \<open>Microtasks and user clicks\<close>

fun run_microtask :: "world \<Rightarrow> continuation \<times> bool \<Rightarrow> world" where
  "run_microtask w (BlockerDecision, result) =
     (if result then blocker_proceed w else blocker_reset w)"

text \<open>When the running task ends, the queued microtasks run in order.\<close>

definition drain :: "world \<Rightarrow> world" where
  "drain w = foldl run_microtask (w\<lparr>microtasks := []\<rparr>) (microtasks w)"

fun run_handler :: "click_handler \<Rightarrow> world \<Rightarrow> world" where
  "run_handler ProviderOnConfirm w = ConfirmProvider_onConfirm w"
| "run_handler ProviderOnCancel w = ConfirmProvider_onCancel w"
| "run_handler (Stored c) w = invoke c w"

datatype control = CloseIcon | CancelButton | ConfirmButton

definition handler_of :: "control \<Rightarrow> view \<Rightarrow> click_handler option" where
  "handler_of ctl v =
     (case ctl of
        CloseIcon \<Rightarrow> closeIcon_onClick v
      | CancelButton \<Rightarrow> cancelButton_onClick v
      | ConfirmButton \<Rightarrow> confirmButton_onClick v)"

text \<open>
  A click on a control of the rendered dialog: one task, then its microtasks. The
  handlers are attached to the controls whether the dialog is displayed or hidden.
\<close>

definition click :: "control \<Rightarrow> world \<Rightarrow> world" where
  "click ctl w =
     drain (case handler_of ctl (render w) of None \<Rightarrow> w | Some h \<Rightarrow> run_handler h w)"

section \<open>useConfirm (confirm.hooks.ts)\<close>

text \<open>
  The composition tree above a consumer, root first. \<open>ConfirmProvider\<close> is the only
  component of the repository that renders \<open>ConfirmCtx.Provider\<close>, and it always gives it
  the object \<^verbatim>\<open>{ show }\<close>; \<^verbatim>\<open>createContext(null)\<close> makes \<open>null\<close> the value without one.
  \<open>RouterProvider\<close>, which \<open>App\<close> renders with \<^verbatim>\<open>createBrowserRouter(routes)\<close>, is the data
  router of the routing library.
\<close>

datatype component = ConfirmProviderNode | RouterProviderNode | OtherNode string

datatype ConfirmContext = ShowCapability

text \<open>
  What a hook can throw: an \<^verbatim>\<open>Error\<close> of the repository with its message, or the error of
  the routing library's \<open>useBlocker\<close>, whose text belongs to the library.
\<close>

datatype js_error = JsError string | DataRouterMissing

definition useContext_ConfirmCtx :: "component list \<Rightarrow> ConfirmContext option" where
  "useContext_ConfirmCtx ancestors =
     (if ConfirmProviderNode \<in> set ancestors then Some ShowCapability else None)"

text \<open>
  \<^verbatim>\<open>
  const context = useContext(ConfirmCtx);
  if (!context) throw new Error('useConfirm must be used within a ConfirmProvider');
  return context;\<close>
\<close>

definition useConfirm :: "component list \<Rightarrow> js_error + ConfirmContext" where
  "useConfirm ancestors =
     (case useContext_ConfirmCtx ancestors of
        None \<Rightarrow> Inl (JsError ''useConfirm must be used within a ConfirmProvider'')
      | Some context \<Rightarrow> Inr context)"

section \<open>usePrompt (hooks/usePrompt)\<close>

text \<open>
  \<^verbatim>\<open>const blocker = useBlocker(isDirty);\<close> The hook is the routing library's
  (\<^verbatim>\<open>unstable_useBlocker\<close> of react-router-dom, not part of the repository): it may only be
  called under a data router and throws elsewhere. The blocker it returns is the
  \<open>blocker\<close> of the world.
\<close>

definition useBlocker :: "component list \<Rightarrow> js_error + unit" where
  "useBlocker ancestors =
     (if RouterProviderNode \<in> set ancestors then Inr () else Inl DataRouterMissing)"

text \<open>\<^verbatim>\<open>ConfirmOptions & { isDirty?: boolean }\<close>; the caller's functions are identifiers.\<close>

record 'f PromptOptions = "'f ConfirmOptions" +
  isDirty :: "bool option"

text \<open>The destructuring defaults of the hook's parameter.\<close>

definition isDirty_of :: "nat PromptOptions \<Rightarrow> bool" where
  "isDirty_of cfg = (case isDirty cfg of None \<Rightarrow> False | Some b \<Rightarrow> b)"

definition title_of :: "nat PromptOptions \<Rightarrow> string" where
  "title_of cfg = (case title cfg of None \<Rightarrow> ''You have unsaved changes!'' | Some s \<Rightarrow> s)"

definition subtitle_of :: "nat PromptOptions \<Rightarrow> string" where
  "subtitle_of cfg =
     (case subtitle cfg of None \<Rightarrow> ''Are you sure you want to leave?'' | Some s \<Rightarrow> s)"

definition confirmText_of :: "nat PromptOptions \<Rightarrow> string" where
  "confirmText_of cfg = (case confirmText cfg of None \<Rightarrow> ''Leave'' | Some s \<Rightarrow> s)"

definition cancelText_of :: "nat PromptOptions \<Rightarrow> string" where
  "cancelText_of cfg = (case cancelText cfg of None \<Rightarrow> ''Stay'' | Some s \<Rightarrow> s)"

definition type_of :: "nat PromptOptions \<Rightarrow> severity" where
  "type_of cfg = (case type cfg of None \<Rightarrow> Warning | Some t \<Rightarrow> t)"

text \<open>The object literal \<open>confirm\<close> hands to \<open>show\<close>, for the promise \<open>p\<close> it has just made.\<close>

definition confirm_request :: "nat PromptOptions \<Rightarrow> nat \<Rightarrow> callback ConfirmOptions" where
  "confirm_request cfg p =
     \<lparr>title = Some (title_of cfg),
      subtitle = Some (subtitle_of cfg),
      confirmText = Some (confirmText_of cfg),
      cancelText = Some (cancelText_of cfg),
      onConfirm = Some (Deferred p True (onConfirm cfg)),
      onCancel = Some (Deferred p False (onCancel cfg)),
      type = Some (type_of cfg)\<rparr>"

text \<open>
  \<^verbatim>\<open>
  const confirm = () => {
    if (!isDirty) return Promise.resolve(true);
    return new Promise<boolean>((resolve) => {
      show({ title, subtitle, confirmText, cancelText, type,
             onConfirm: () => { resolve(true); onConfirm?.(); },
             onCancel: () => { resolve(false); onCancel?.(); } });
    });
  }\<close>
  The result is the promise and the world after the call.
\<close>

definition usePrompt_confirm :: "nat PromptOptions \<Rightarrow> world \<Rightarrow> nat \<times> world" where
  "usePrompt_confirm cfg w =
     (if \<not> isDirty_of cfg then Promise_resolve True w
      else (case new_Promise w of
              (p, w1) \<Rightarrow> (p, ConfirmProvider_show (Some (confirm_request cfg p)) w1)))"

text \<open>
  \<^verbatim>\<open>
  useEffect(() => {
    if (blocker.state === 'blocked') {
      confirm().then((result) => { if (result) blocker.proceed(); else blocker.reset(); });
    }
  }, [blocker, confirm]);\<close>
\<close>

definition usePrompt_blocker_effect :: "nat PromptOptions \<Rightarrow> world \<Rightarrow> world" where
  "usePrompt_blocker_effect cfg w =
     (case blocker w of
        Blocked target \<Rightarrow>
          (case usePrompt_confirm cfg w of (p, w1) \<Rightarrow> Promise_then p BlockerDecision w1)
      | Unblocked \<Rightarrow> w)"

text \<open>
  \<^verbatim>\<open>
  useEffect(() => {
    if (isDirty) { window.onbeforeunload = () => subtitle; }
    return () => { window.onbeforeunload = null; };
  }, [isDirty, subtitle]);\<close>
\<close>

definition usePrompt_unload_effect :: "nat PromptOptions \<Rightarrow> world \<Rightarrow> world" where
  "usePrompt_unload_effect cfg w =
     (if isDirty_of cfg then w\<lparr>onbeforeunload := Some (Returns (subtitle_of cfg))\<rparr> else w)"

definition usePrompt_unload_cleanup :: "world \<Rightarrow> world" where
  "usePrompt_unload_cleanup w = w\<lparr>onbeforeunload := None\<rparr>"

text \<open>
  The browser firing \<open>beforeunload\<close>: the string the installed handler returns, if a
  handler is installed.
\<close>

definition fire_beforeunload :: "world \<Rightarrow> string option" where
  "fire_beforeunload w =
     (case onbeforeunload w of None \<Rightarrow> None | Some (Returns s) \<Rightarrow> Some s)"

subsection \<open>The life of a guard instance\<close>

text \<open>
  A mounted instance remembers the values its effects last ran with: the hook's
  parameter and the blocker it saw.
\<close>

record guard =
  props :: "nat PromptOptions"
  seen_blocker :: blocker_state

text \<open>
  The dependencies of \<open>confirm\<close>'s \<open>useCallback\<close> (\<open>show\<close> is stable), and of the
  before-unload effect.
\<close>

definition confirm_deps ::
  "nat PromptOptions \<Rightarrow>
     string \<times> string \<times> bool \<times> nat option \<times> nat option \<times> string \<times> string \<times> severity" where
  "confirm_deps cfg =
     (cancelText_of cfg, confirmText_of cfg, isDirty_of cfg, onCancel cfg, onConfirm cfg,
      subtitle_of cfg, title_of cfg, type_of cfg)"

definition unload_deps :: "nat PromptOptions \<Rightarrow> bool \<times> string" where
  "unload_deps cfg = (isDirty_of cfg, subtitle_of cfg)"

text \<open>
  First render and commit. The hook calls \<open>useBlocker(isDirty)\<close> first, which throws
  without a data router above, then \<open>useConfirm()\<close>, which throws without a provider
  above; after a throw no effect runs. Otherwise both effects run, in declaration order.
\<close>

definition usePrompt_mount ::
  "component list \<Rightarrow> nat PromptOptions \<Rightarrow> world \<Rightarrow> js_error + guard \<times> world" where
  "usePrompt_mount ancestors cfg w =
     (case useBlocker ancestors of
        Inl e \<Rightarrow> Inl e
      | Inr b \<Rightarrow>
          (case useConfirm ancestors of
             Inl e \<Rightarrow> Inl e
           | Inr context \<Rightarrow>
               Inr (\<lparr>props = cfg, seen_blocker = blocker w\<rparr>,
                    drain (usePrompt_unload_effect cfg (usePrompt_blocker_effect cfg w)))))"

text \<open>
  A later render of a mounted instance: the cleanup of an effect whose dependencies
  changed runs first, then the effects whose dependencies changed, in declaration order.
\<close>

definition usePrompt_rerender :: "nat PromptOptions \<Rightarrow> guard \<Rightarrow> world \<Rightarrow> guard \<times> world" where
  "usePrompt_rerender cfg g w =
     (let unload_changed = (unload_deps cfg \<noteq> unload_deps (props g));
          blocker_changed =
            (blocker w \<noteq> seen_blocker g \<or> confirm_deps cfg \<noteq> confirm_deps (props g));
          w1 = (if unload_changed then usePrompt_unload_cleanup w else w);
          w2 = (if blocker_changed then usePrompt_blocker_effect cfg w1 else w1);
          w3 = (if unload_changed then usePrompt_unload_effect cfg w2 else w2)
      in (\<lparr>props = cfg, seen_blocker = blocker w\<rparr>, drain w3))"

definition usePrompt_unmount :: "guard \<Rightarrow> world \<Rightarrow> world" where
  "usePrompt_unmount g w = usePrompt_unload_cleanup w"

text \<open>
  The slot holds the handler of the instance exactly while the instance is dirty, and
  nothing otherwise.
\<close>

definition registered :: "guard \<Rightarrow> world \<Rightarrow> bool" where
  "registered g w =
     (onbeforeunload w =
        (if isDirty_of (props g) then Some (Returns (subtitle_of (props g))) else None))"

text \<open>While a dirty instance is mounted and alone, its handler is the one installed.\<close>

definition installed :: "guard \<Rightarrow> world \<Rightarrow> bool" where
  "installed g w =
     (if isDirty_of (props g) then onbeforeunload w = Some (Returns (subtitle_of (props g)))
      else True)"

section \<open>Everything that can happen after a request\<close>

text \<open>
  What consumers, the user and the routing layer can do: a guard calls \<open>confirm()\<close>,
  a guard's blocker effect runs, another consumer calls \<open>show\<close> with functions of its own
  (or with \<open>null\<close>), the user clicks a control of the dialog, a navigation is attempted.
  Each is one task, followed by its microtasks.
\<close>

datatype action =
    CallConfirm "nat PromptOptions"
  | RunBlockerEffect "nat PromptOptions"
  | CallShow "nat ConfirmOptions option"
  | Click control
  | Navigate bool string

definition external_request :: "nat ConfirmOptions \<Rightarrow> callback ConfirmOptions" where
  "external_request r =
     \<lparr>title = title r, subtitle = subtitle r, confirmText = confirmText r,
      cancelText = cancelText r,
      onConfirm = map_option External (onConfirm r),
      onCancel = map_option External (onCancel r),
      type = type r\<rparr>"

fun act :: "world \<Rightarrow> action \<Rightarrow> world" where
  "act w (CallConfirm cfg) = drain (snd (usePrompt_confirm cfg w))"
| "act w (RunBlockerEffect cfg) = drain (usePrompt_blocker_effect cfg w)"
| "act w (CallShow r) = drain (ConfirmProvider_show (map_option external_request r) w)"
| "act w (Click ctl) = click ctl w"
| "act w (Navigate shouldBlock target) = router_navigate shouldBlock target w"

definition acts :: "action list \<Rightarrow> world \<Rightarrow> world" where
  "acts as w = foldl act w as"

text \<open>
  What happens to one mounted guard instance and its world: the instance is rendered
  again, with the parameter given, or one of the actions above takes place. No other
  instance's before-unload effect or cleanup is among them.
\<close>

datatype life_event = Render "nat PromptOptions" | Other action

fun lives :: "life_event list \<Rightarrow> guard \<times> world \<Rightarrow> guard \<times> world" where
  "lives [] gw = gw"
| "lives (Render cfg # es) (g, w) = lives es (usePrompt_rerender cfg g w)"
| "lives (Other a # es) (g, w) = lives es (g, act w a)"

text \<open>The parameters of the renders among the events, in order.\<close>

fun rendered :: "life_event list \<Rightarrow> nat PromptOptions list" where
  "rendered [] = []"
| "rendered (Render cfg # es) = cfg # rendered es"
| "rendered (Other a # es) = rendered es"

text \<open>The events that \<open>w'\<close> has seen since \<open>w\<close>.\<close>

definition events_since :: "world \<Rightarrow> world \<Rightarrow> event list" where
  "events_since w w' = drop (length (trace w)) (trace w')"

text \<open>Whether promise \<open>p\<close> is still pending.\<close>

definition pending :: "nat \<Rightarrow> world \<Rightarrow> bool" where
  "pending p w = (p < length (promises w) \<and> settled (promises w ! p) = None)"

definition result_of :: "nat \<Rightarrow> world \<Rightarrow> bool option" where
  "result_of p w = (if p < length (promises w) then settled (promises w ! p) else None)"

text \<open>
  The caller's functions an action brings in, and the caller's functions a callback
  ends up calling.
\<close>

fun functions_of :: "callback \<Rightarrow> nat list" where
  "functions_of (External n) = [n]"
| "functions_of (Deferred p v f) = (case f of None \<Rightarrow> [] | Some n \<Rightarrow> [n])"

definition given_functions :: "('f, 'z) ConfirmOptions_scheme \<Rightarrow> 'f list" where
  "given_functions r =
     (case onConfirm r of None \<Rightarrow> [] | Some f \<Rightarrow> [f]) @
     (case onCancel r of None \<Rightarrow> [] | Some f \<Rightarrow> [f])"

fun action_functions :: "action \<Rightarrow> nat list" where
  "action_functions (CallConfirm cfg) = given_functions cfg"
| "action_functions (RunBlockerEffect cfg) = given_functions cfg"
| "action_functions (CallShow None) = []"
| "action_functions (CallShow (Some r)) = given_functions r"
| "action_functions (Click ctl) = []"
| "action_functions (Navigate shouldBlock target) = []"

text \<open>The callbacks of the request the coordinator holds.\<close>

definition stored_callbacks :: "world \<Rightarrow> callback list" where
  "stored_callbacks w = (case confirm w of None \<Rightarrow> [] | Some r \<Rightarrow> given_functions r)"

text \<open>Whether a callback holds the \<open>resolve\<close> function of promise \<open>p\<close>.\<close>

fun settles :: "nat \<Rightarrow> callback \<Rightarrow> bool" where
  "settles p (External n) = False"
| "settles p (Deferred q v f) = (q = p)"

text \<open>Whether an event is a call of a callback that settles \<open>p\<close>, or of the function \<open>n\<close>.\<close>

fun fires :: "nat \<Rightarrow> event \<Rightarrow> bool" where
  "fires p (Invoke c) = settles p c"
| "fires p e = False"

fun calls :: "nat \<Rightarrow> event \<Rightarrow> bool" where
  "calls n (Invoke (External m)) = (m = n)"
| "calls n e = False"

section \<open>Requests that are overwritten\<close>

text \<open>Whether an action, run in \<open>w\<close>, calls \<open>show\<close>.\<close>

fun calls_show :: "world \<Rightarrow> action \<Rightarrow> bool" where
  "calls_show w (CallConfirm cfg) = isDirty_of cfg"
| "calls_show w (RunBlockerEffect cfg) = (isDirty_of cfg \<and> blocker w \<noteq> Unblocked)"
| "calls_show w (CallShow r) = True"
| "calls_show w (Click ctl) = False"
| "calls_show w (Navigate shouldBlock target) = False"

text \<open>
  The argument of that call: what a guard's \<open>confirm\<close> builds for its new promise, or what
  the other consumer passes.
\<close>

fun request_of :: "world \<Rightarrow> action \<Rightarrow> callback ConfirmOptions option" where
  "request_of w (CallConfirm cfg) = Some (confirm_request cfg (length (promises w)))"
| "request_of w (RunBlockerEffect cfg) = Some (confirm_request cfg (length (promises w)))"
| "request_of w (CallShow r) = map_option external_request r"
| "request_of w (Click ctl) = confirm w"
| "request_of w (Navigate shouldBlock target) = confirm w"

text \<open>No stored callback can settle promise \<open>p\<close>, which is pending.\<close>

definition unreachable :: "nat \<Rightarrow> world \<Rightarrow> bool" where
  "unreachable p w = (pending p w \<and> list_all (\<lambda>c. \<not> settles p c) (stored_callbacks w))"

text \<open>None of the functions \<open>ns\<close> is called by a stored callback, or brought in by an action.\<close>

definition unmentioned :: "nat list \<Rightarrow> world \<Rightarrow> bool" where
  "unmentioned ns w =
     list_all (\<lambda>c. list_all (\<lambda>n. n \<notin> set (functions_of c)) ns) (stored_callbacks w)"

definition fresh_for :: "nat list \<Rightarrow> action \<Rightarrow> bool" where
  "fresh_for ns a = list_all (\<lambda>n. n \<notin> set (action_functions a)) ns"

definition uncalled :: "nat list \<Rightarrow> event list \<Rightarrow> bool" where
  "uncalled ns evs = list_all (\<lambda>e. list_all (\<lambda>n. \<not> calls n e) ns) evs"

definition unfired :: "nat \<Rightarrow> event list \<Rightarrow> bool" where
  "unfired p evs = list_all (\<lambda>e. \<not> fires p e) evs"

fun is_decision :: "event \<Rightarrow> bool" where
  "is_decision Proceed = True"
| "is_decision Reset = True"
| "is_decision e = False"

section \<open>Concrete inputs\<close>

text \<open>
  The tree above a page of the application: \<open>main\<close> renders \<open>ConfirmProvider\<close> around
  \<open>App\<close>, \<open>App\<close> renders the \<open>RouterProvider\<close>, the route renders \<open>MainLayout\<close> around
  the page.
\<close>

definition page_ancestors :: "component list" where
  "page_ancestors =
     [ConfirmProviderNode, OtherNode ''App'', RouterProviderNode, OtherNode ''MainLayout'']"

text \<open>A request as a consumer passes it to \<open>show\<close>.\<close>

definition example_request :: "callback ConfirmOptions" where
  "example_request =
     \<lparr>title = Some ''Delete?'', subtitle = None, confirmText = Some ''Yes'',
      cancelText = Some ''No'', onConfirm = Some (External 1), onCancel = Some (External 2),
      type = Some Error\<rparr>"

text \<open>
  The guard as the pages of the repository use it, \<^verbatim>\<open>usePrompt({ isDirty })\<close>, and a guard
  with every field configured.
\<close>

definition default_guard :: "bool \<Rightarrow> nat PromptOptions" where
  "default_guard dirty =
     \<lparr>title = None, subtitle = None, confirmText = None, cancelText = None,
      onConfirm = None, onCancel = None, type = None, isDirty = Some dirty\<rparr>"

definition example_guard :: "nat PromptOptions" where
  "example_guard =
     \<lparr>title = Some ''Discard the draft?'', subtitle = Some ''Your message is not sent yet.'',
      confirmText = Some ''Discard'', cancelText = Some ''Keep writing'',
      onConfirm = Some 7, onCancel = Some 8, type = Some Info, isDirty = Some True\<rparr>"

text \<open>
  The contact page with a dirty form, after a navigation to \<open>/about\<close> was attempted, and
  the page's guard as it was before the attempt.
\<close>

definition blocked_world :: world where
  "blocked_world = router_navigate True ''/about'' (initial ''/contact'')"

definition mounted_guard :: guard where
  "mounted_guard = \<lparr>props = default_guard True, seen_blocker = Unblocked\<rparr>"

text \<open>A dirty guard configured with the empty string as its subtitle.\<close>

definition empty_subtitle_guard :: "nat PromptOptions" where
  "empty_subtitle_guard = (default_guard True)\<lparr>subtitle := Some ''''\<rparr>"

text \<open>
  The initial world after the home page's guard has installed its handler, and after a
  second dirty guard has installed its own.
\<close>

definition home_dirty_world :: world where
  "home_dirty_world =
     (initial ''/'')\<lparr>onbeforeunload := Some (Returns ''Are you sure you want to leave?'')\<rparr>"

definition both_dirty_world :: world where
  "both_dirty_world =
     (initial ''/'')\<lparr>onbeforeunload := Some (Returns ''Your message is not sent yet.'')\<rparr>"

text \<open>
  A request of another consumer, with functions 1 and 2 of its own, and what may follow
  it.
\<close>

definition other_request :: "nat ConfirmOptions" where
  "other_request =
     \<lparr>title = Some ''Delete the file?'', subtitle = None, confirmText = Some ''Delete'',
      cancelText = Some ''Keep'', onConfirm = Some 1, onCancel = Some 2, type = Some Error\<rparr>"

definition later_actions :: "action list" where
  "later_actions =
     [Click ConfirmButton, CallConfirm (default_guard True), Click CloseIcon,
      Navigate True ''/about'', RunBlockerEffect (default_guard True), Click CancelButton]"

section \<open>Basic facts\<close>

lemma emit_fields [simp]:
  "confirm (emit e w) = confirm w" "open (emit e w) = open w"
  "promises (emit e w) = promises w" "microtasks (emit e w) = microtasks w"
  "blocker (emit e w) = blocker w" "location (emit e w) = location w"
  "onbeforeunload (emit e w) = onbeforeunload w" "trace (emit e w) = trace w @ [e]"
  by (simp_all add: emit_def)

lemma resolve_fields [simp]:
  "confirm (resolve p v w) = confirm w" "open (resolve p v w) = open w"
  "blocker (resolve p v w) = blocker w" "location (resolve p v w) = location w"
  "onbeforeunload (resolve p v w) = onbeforeunload w" "trace (resolve p v w) = trace w"
  by (simp_all add: resolve_def split: option.splits)

lemma call_external_fields [simp]:
  "confirm (call_external n w) = confirm w" "open (call_external n w) = open w"
  "promises (call_external n w) = promises w" "microtasks (call_external n w) = microtasks w"
  "blocker (call_external n w) = blocker w" "location (call_external n w) = location w"
  "onbeforeunload (call_external n w) = onbeforeunload w"
  "trace (call_external n w) = trace w @ [Invoke (External n)]"
  by (simp_all add: call_external_def)

lemma invoke_fields [simp]:
  "confirm (invoke c w) = confirm w" "open (invoke c w) = open w"
  "blocker (invoke c w) = blocker w" "location (invoke c w) = location w"
  "onbeforeunload (invoke c w) = onbeforeunload w"
  by (cases c; simp add: Let_def split: option.splits)+

lemma opt_invoke_fields [simp]:
  "confirm (opt_invoke f w) = confirm w" "open (opt_invoke f w) = open w"
  "blocker (opt_invoke f w) = blocker w" "location (opt_invoke f w) = location w"
  "onbeforeunload (opt_invoke f w) = onbeforeunload w"
  by (simp_all add: opt_invoke_def split: option.splits)

lemma toggle_fields [simp]:
  "confirm (toggle b w) = confirm w" "open (toggle b w) = b"
  "promises (toggle b w) = promises w" "microtasks (toggle b w) = microtasks w"
  "blocker (toggle b w) = blocker w" "location (toggle b w) = location w"
  "onbeforeunload (toggle b w) = onbeforeunload w" "trace (toggle b w) = trace w @ [Toggle b]"
  by (simp_all add: toggle_def)

lemma setConfirm_fields [simp]:
  "confirm (setConfirm r w) = r" "open (setConfirm r w) = open w"
  "promises (setConfirm r w) = promises w" "microtasks (setConfirm r w) = microtasks w"
  "blocker (setConfirm r w) = blocker w" "location (setConfirm r w) = location w"
  "onbeforeunload (setConfirm r w) = onbeforeunload w"
  "trace (setConfirm r w) = trace w @ [SetConfirm r]"
  by (simp_all add: setConfirm_def)

lemma show_fields [simp]:
  "confirm (ConfirmProvider_show r w) = r" "open (ConfirmProvider_show r w) = True"
  "promises (ConfirmProvider_show r w) = promises w"
  "microtasks (ConfirmProvider_show r w) = microtasks w"
  "blocker (ConfirmProvider_show r w) = blocker w"
  "location (ConfirmProvider_show r w) = location w"
  "onbeforeunload (ConfirmProvider_show r w) = onbeforeunload w"
  "trace (ConfirmProvider_show r w) = trace w @ [SetConfirm r, Toggle True]"
  by (simp_all add: ConfirmProvider_show_def)

lemma onConfirm_fields [simp]:
  "confirm (ConfirmProvider_onConfirm w) = confirm w" "open (ConfirmProvider_onConfirm w) = False"
  "blocker (ConfirmProvider_onConfirm w) = blocker w"
  "location (ConfirmProvider_onConfirm w) = location w"
  "onbeforeunload (ConfirmProvider_onConfirm w) = onbeforeunload w"
  by (simp_all add: ConfirmProvider_onConfirm_def split: option.splits)

lemma onCancel_fields [simp]:
  "confirm (ConfirmProvider_onCancel w) = confirm w" "open (ConfirmProvider_onCancel w) = False"
  "blocker (ConfirmProvider_onCancel w) = blocker w"
  "location (ConfirmProvider_onCancel w) = location w"
  "onbeforeunload (ConfirmProvider_onCancel w) = onbeforeunload w"
  by (simp_all add: ConfirmProvider_onCancel_def split: option.splits)

lemma coordinator_run_snoc:
  "coordinator_run (ops @ [x]) w = coordinator_step (coordinator_run ops w) x"
  by (simp add: coordinator_run_def)

lemma open_coordinator_step: "open (coordinator_step w x) = is_Show x"
  by (cases x) simp_all

lemma confirm_coordinator_step:
  "confirm (coordinator_step w x) = (case x of Show r \<Rightarrow> r | _ \<Rightarrow> confirm w)"
  by (cases x) simp_all

section \<open>The coordinator's invariant\<close>

lemma confirm_step_remembers: "confirm (coordinator_step w x) = remember (confirm w) x"
  by (cases x) simp_all

lemma confirm_coordinator_run:
  "confirm (coordinator_run ops w) = foldl remember (confirm w) ops"
  unfolding coordinator_run_def
  by (induction ops arbitrary: w) (simp_all add: confirm_step_remembers)

lemma visible_after_last_show:
  "open (coordinator_run ops (initial loc)) = (ops \<noteq> [] \<and> is_Show (last ops))"
  by (cases ops rule: rev_cases)
    (simp_all add: coordinator_run_snoc open_coordinator_step, simp add: coordinator_run_def initial_def)

lemma stored_after_last_show:
  "ops \<noteq> [] \<Longrightarrow> last ops = Show r \<Longrightarrow>
   confirm (coordinator_run ops w) = r \<and>
   stored_requests (coordinator_run ops w) = (if r = None then 0 else 1)"
  by (cases ops rule: rev_cases)
    (auto simp: coordinator_run_snoc stored_requests_def split: option.splits)

text \<open>
  C1 (as amended). In every state reached from the initial one by \<open>show\<close>, \<open>resolveConfirm\<close>
  and \<open>resolveCancel\<close>: the dialog is visible exactly when the latest operation was a
  \<open>show\<close>, and then the coordinator holds that call's argument, one request when it was
  a request, none when it was \<open>null\<close>; the stored request is at all times the argument
  of the latest \<open>show\<close> (\<open>null\<close> before the first); \<open>resolveConfirm\<close> and \<open>resolveCancel\<close>
  clear visibility and leave the stored request in place.
\<close>

theorem visibility_follows_last_operation:
  "open (coordinator_run ops (initial loc)) = (ops \<noteq> [] \<and> is_Show (last ops)) \<and>
   (\<forall>r. ops \<noteq> [] \<and> last ops = Show r \<longrightarrow>
      confirm (coordinator_run ops (initial loc)) = r \<and>
      stored_requests (coordinator_run ops (initial loc)) = (if r = None then 0 else 1)) \<and>
   confirm (coordinator_run ops (initial loc)) = latest_request ops \<and>
   confirm (coordinator_run (ops @ [ResolveConfirm]) (initial loc)) =
     confirm (coordinator_run ops (initial loc)) \<and>
   confirm (coordinator_run (ops @ [ResolveCancel]) (initial loc)) =
     confirm (coordinator_run ops (initial loc)) \<and>
   open (coordinator_run (ops @ [ResolveConfirm]) (initial loc)) = False \<and>
   open (coordinator_run (ops @ [ResolveCancel]) (initial loc)) = False"
proof -
  have l: "confirm (coordinator_run ops (initial loc)) = latest_request ops"
    by (simp add: confirm_coordinator_run latest_request_def initial_def)
  have k: "confirm (coordinator_run (ops @ [ResolveConfirm]) (initial loc)) =
             confirm (coordinator_run ops (initial loc))"
    "confirm (coordinator_run (ops @ [ResolveCancel]) (initial loc)) =
             confirm (coordinator_run ops (initial loc))"
    "open (coordinator_run (ops @ [ResolveConfirm]) (initial loc)) = False"
    "open (coordinator_run (ops @ [ResolveCancel]) (initial loc)) = False"
    by (simp_all add: coordinator_run_snoc)
  show ?thesis
    using visible_after_last_show [of ops loc] stored_after_last_show [of ops _ "initial loc"] l k
    by blast
qed

text \<open>
  C1, at one \<open>show\<close> of a request: the dialog is visible and the request stored, and after
  a confirmation the request is still stored.
\<close>

theorem visibility_follows_last_operation_witness:
  "open (coordinator_run [Show (Some example_request)] (initial ''/'')) \<and>
   confirm (coordinator_run [Show (Some example_request)] (initial ''/'')) = Some example_request \<and>
   stored_requests (coordinator_run [Show (Some example_request)] (initial ''/'')) = 1 \<and>
   latest_request [Show (Some example_request)] = Some example_request \<and>
   confirm (coordinator_run [Show (Some example_request), ResolveConfirm] (initial ''/'')) =
     Some example_request \<and>
   open (coordinator_run [Show (Some example_request), ResolveConfirm] (initial ''/'')) = False"
  using visibility_follows_last_operation [of "[Show (Some example_request)]" "''/''"]
  by (simp add: latest_request_def)

text \<open>
  C1 as stated fails both ways: after \<open>show(null)\<close> the dialog is visible and no request
  is stored; after a request was shown and confirmed the dialog is hidden and the request
  is still stored.
\<close>

theorem visibility_iff_one_request_counterexample:
  "\<not> (open (coordinator_run [Show None] (initial ''/'')) \<longleftrightarrow>
       stored_requests (coordinator_run [Show None] (initial ''/'')) = 1) \<and>
   \<not> (open (coordinator_run [Show (Some example_request), ResolveConfirm] (initial ''/'')) \<longleftrightarrow>
       stored_requests
         (coordinator_run [Show (Some example_request), ResolveConfirm] (initial ''/'')) = 1)"
  by (simp add: coordinator_run_def stored_requests_def)

section \<open>The coordinator's operations\<close>

text \<open>
  C9. \<open>show(null)\<close> is accepted: \<open>show\<close> has no failing branch, and after it the dialog
  is visible although no request is stored; it is rendered with no title, no subtitle and
  no button texts, with severity \<open>warning\<close>.
\<close>

theorem show_null_opens_empty_dialog:
  "open (ConfirmProvider_show None w) = True \<and>
   confirm (ConfirmProvider_show None w) = None \<and>
   stored_requests (ConfirmProvider_show None w) = 0 \<and>
   render (ConfirmProvider_show None w) =
     \<lparr>visible = True, heading = None, message = None, cancelLabel = None,
      confirmLabel = None, severity_shown = Warning,
      closeIcon_onClick = Some ProviderOnCancel,
      cancelButton_onClick = Some ProviderOnCancel,
      confirmButton_onClick = Some ProviderOnConfirm\<rparr>"
  by (simp add: stored_requests_def render_def Confirm_props_def Confirm_def)

section \<open>Using the capability without a provider\<close>

lemma useConfirm_without_provider:
  "ConfirmProviderNode \<notin> set ancestors \<Longrightarrow>
   useConfirm ancestors = Inl (JsError ''useConfirm must be used within a ConfirmProvider'')"
  by (simp add: useConfirm_def useContext_ConfirmCtx_def)

lemma useConfirm_with_provider:
  "ConfirmProviderNode \<in> set ancestors \<Longrightarrow> useConfirm ancestors = Inr ShowCapability"
  by (simp add: useConfirm_def useContext_ConfirmCtx_def)

text \<open>
  C6. Without a \<open>ConfirmProvider\<close> above the consumer, \<open>useConfirm\<close> throws the error
  that names the mistake: it returns no capability and does nothing else. With one
  above, \<open>useConfirm\<close> returns the capability and does not throw.
\<close>

theorem useConfirm_throws_iff_no_provider:
  "(ConfirmProviderNode \<notin> set ancestors \<longrightarrow>
      useConfirm ancestors =
        Inl (JsError ''useConfirm must be used within a ConfirmProvider'')) \<and>
   (ConfirmProviderNode \<in> set ancestors \<longrightarrow>
      useConfirm ancestors = Inr ShowCapability)"
  by (simp add: useConfirm_without_provider useConfirm_with_provider)

text \<open>C6, for a consumer directly under the root and for one under a provider.\<close>

theorem useConfirm_throws_iff_no_provider_witness:
  "useConfirm [OtherNode ''App''] =
     Inl (JsError ''useConfirm must be used within a ConfirmProvider'') \<and>
   useConfirm [ConfirmProviderNode, OtherNode ''App''] = Inr ShowCapability"
  using useConfirm_throws_iff_no_provider [of "[OtherNode ''App'']"]
    useConfirm_throws_iff_no_provider [of "[ConfirmProviderNode, OtherNode ''App'']"]
  by simp

section \<open>The resolution paths\<close>

lemma trace_invoke [simp]: "trace (invoke c w) = trace w @ invocation c"
  by (cases c) (simp_all add: Let_def user_calls_def split: option.splits)

lemma promises_invoke_Deferred:
  "promises (invoke (Deferred p v f) w) = promises (resolve p v w)"
  by (simp add: Let_def resolve_def emit_def split: option.splits)

lemma microtasks_invoke_Deferred:
  "microtasks (invoke (Deferred p v f) w) = microtasks (resolve p v w)"
  by (simp add: Let_def resolve_def emit_def split: option.splits)

declare invoke.simps(2) [simp del]

lemma trace_opt_invoke [simp]: "trace (opt_invoke f w) = trace w @ optional_invocation f"
  by (simp add: opt_invoke_def optional_invocation_def split: option.splits)

lemma events_since_append [simp]: "trace w' = trace w @ evs \<Longrightarrow> events_since w w' = evs"
  by (simp add: events_since_def)

lemma trace_onConfirm:
  "trace (ConfirmProvider_onConfirm w) =
     trace w @ (case confirm w of None \<Rightarrow> [] | Some r \<Rightarrow> optional_invocation (onConfirm r)) @
     [Toggle False]"
  by (simp add: ConfirmProvider_onConfirm_def split: option.splits)

lemma trace_onCancel:
  "trace (ConfirmProvider_onCancel w) =
     trace w @ (case confirm w of None \<Rightarrow> [] | Some r \<Rightarrow> optional_invocation (onCancel r)) @
     [Toggle False]"
  by (simp add: ConfirmProvider_onCancel_def split: option.splits)

lemma handler_of_render [simp]:
  "handler_of CloseIcon (render w) = Some ProviderOnCancel"
  "handler_of CancelButton (render w) = Some ProviderOnCancel"
  "handler_of ConfirmButton (render w) = Some ProviderOnConfirm"
  by (simp_all add: handler_of_def render_def Confirm_props_def Confirm_def Let_def)

lemma click_eq [simp]:
  "click CloseIcon w = drain (ConfirmProvider_onCancel w)"
  "click CancelButton w = drain (ConfirmProvider_onCancel w)"
  "click ConfirmButton w = drain (ConfirmProvider_onConfirm w)"
  by (simp_all add: click_def)

text \<open>
  C8. Whatever request is stored, \<open>onConfirm\<close> and \<open>onCancel\<close> of the provider first call the
  request's own \<open>onConfirm\<close>, respectively \<open>onCancel\<close> (nothing is called when the request or
  the callback is absent), then set visibility to false; the close icon of the dialog is
  wired to the cancel path, like the cancel button.
\<close>

theorem resolution_calls_back_then_hides:
  "events_since w (ConfirmProvider_onConfirm w) =
     (case confirm w of None \<Rightarrow> [] | Some r \<Rightarrow> optional_invocation (onConfirm r)) @ [Toggle False] \<and>
   events_since w (ConfirmProvider_onCancel w) =
     (case confirm w of None \<Rightarrow> [] | Some r \<Rightarrow> optional_invocation (onCancel r)) @ [Toggle False] \<and>
   optional_invocation None = [] \<and>
   open (ConfirmProvider_onConfirm w) = False \<and>
   open (ConfirmProvider_onCancel w) = False \<and>
   handler_of CloseIcon (render w) = Some ProviderOnCancel \<and>
   handler_of CancelButton (render w) = Some ProviderOnCancel \<and>
   handler_of ConfirmButton (render w) = Some ProviderOnConfirm \<and>
   click CloseIcon w = drain (ConfirmProvider_onCancel w) \<and>
   click CancelButton w = drain (ConfirmProvider_onCancel w) \<and>
   click ConfirmButton w = drain (ConfirmProvider_onConfirm w)"
  by (simp add: trace_onConfirm trace_onCancel optional_invocation_def)

section \<open>The guard's confirm\<close>

lemma drain_idle [simp]: "microtasks w = [] \<Longrightarrow> drain w = w"
  by (simp add: drain_def)

lemma usePrompt_confirm_clean:
  "\<not> isDirty_of cfg \<Longrightarrow>
   usePrompt_confirm cfg w =
     (length (promises w), w\<lparr>promises := promises w @ [\<lparr>settled = Some True, reactions = []\<rparr>]\<rparr>)"
  by (simp add: usePrompt_confirm_def Promise_resolve_def)

lemma usePrompt_confirm_dirty:
  "isDirty_of cfg \<Longrightarrow>
   usePrompt_confirm cfg w =
     (length (promises w),
      ConfirmProvider_show (Some (confirm_request cfg (length (promises w))))
        (w\<lparr>promises := promises w @ [\<lparr>settled = None, reactions = []\<rparr>]\<rparr>))"
  by (simp add: usePrompt_confirm_def new_Promise_def)

text \<open>
  C3. When the dirty flag is false (or left out), \<open>confirm()\<close> returns a promise that is
  already resolved to \<open>true\<close>; \<open>show\<close> is not called: the coordinator's state and the
  rendered dialog are as before, no event happened (so neither \<open>onConfirm\<close> nor
  \<open>onCancel\<close> was invoked), and the only change in the world is the new promise.
\<close>

theorem clean_confirm_resolves_true_without_dialog:
  assumes "\<not> isDirty_of cfg"
  shows "result_of (fst (usePrompt_confirm cfg w)) (snd (usePrompt_confirm cfg w)) = Some True \<and>
         confirm (snd (usePrompt_confirm cfg w)) = confirm w \<and>
         open (snd (usePrompt_confirm cfg w)) = open w \<and>
         render (snd (usePrompt_confirm cfg w)) = render w \<and>
         events_since w (snd (usePrompt_confirm cfg w)) = [] \<and>
         microtasks (snd (usePrompt_confirm cfg w)) = microtasks w \<and>
         snd (usePrompt_confirm cfg w) =
           w\<lparr>promises := promises w @ [\<lparr>settled = Some True, reactions = []\<rparr>]\<rparr>"
  using assms
  by (simp add: usePrompt_confirm_clean result_of_def render_def Confirm_props_def events_since_def)

text \<open>C3, for \<^verbatim>\<open>usePrompt({ isDirty: false })\<close> in the initial state.\<close>

theorem clean_confirm_resolves_true_without_dialog_witness:
  "\<not> isDirty_of (default_guard False) \<and>
   result_of 0 (snd (usePrompt_confirm (default_guard False) (initial ''/contact''))) = Some True \<and>
   open (snd (usePrompt_confirm (default_guard False) (initial ''/contact''))) = False \<and>
   events_since (initial ''/contact'')
     (snd (usePrompt_confirm (default_guard False) (initial ''/contact''))) = []"
  using clean_confirm_resolves_true_without_dialog [of "default_guard False" "initial ''/contact''"]
  by (simp add: isDirty_of_def default_guard_def initial_def usePrompt_confirm_def
      Promise_resolve_def)

lemma confirm_request_callbacks [simp]:
  "onConfirm (confirm_request cfg p) = Some (Deferred p True (onConfirm cfg))"
  "onCancel (confirm_request cfg p) = Some (Deferred p False (onCancel cfg))"
  by (simp_all add: confirm_request_def)

lemma result_of_resolve_fresh:
  "pending p w \<Longrightarrow> result_of p (resolve p v w) = Some v"
  by (simp add: pending_def result_of_def resolve_def)

lemma microtasks_resolve_no_reactions:
  "pending p w \<Longrightarrow> reactions (promises w ! p) = [] \<Longrightarrow>
   microtasks (resolve p v w) = microtasks w"
  by (simp add: pending_def resolve_def)

lemma result_of_toggle [simp]: "result_of p (toggle b w) = result_of p w"
  by (simp add: result_of_def)

lemma after_dirty_confirm:
  assumes "isDirty_of cfg" "usePrompt_confirm cfg w = (p, w1)"
  shows "p = length (promises w)"
    and "confirm w1 = Some (confirm_request cfg p)"
    and "open w1"
    and "pending p w1"
    and "reactions (promises w1 ! p) = []"
    and "microtasks w1 = microtasks w"
    and "trace w1 = trace w @ [SetConfirm (Some (confirm_request cfg p)), Toggle True]"
    and "blocker w1 = blocker w" and "location w1 = location w"
    and "onbeforeunload w1 = onbeforeunload w"
  using assms by (auto simp: usePrompt_confirm_dirty pending_def)

lemma result_of_cong: "promises w = promises w' \<Longrightarrow> result_of p w = result_of p w'"
  by (simp add: result_of_def)

lemma provider_path_on_Deferred:
  assumes "pending p w1" "reactions (promises w1 ! p) = []" "microtasks w1 = []"
  shows "drain (toggle False (invoke (Deferred p v f) w1)) =
           toggle False (invoke (Deferred p v f) w1)"
    and "result_of p (toggle False (invoke (Deferred p v f) w1)) = Some v"
    and "trace (toggle False (invoke (Deferred p v f) w1)) =
           trace w1 @ Invoke (Deferred p v f) # user_calls f @ [Toggle False]"
proof -
  show "drain (toggle False (invoke (Deferred p v f) w1)) =
           toggle False (invoke (Deferred p v f) w1)"
    using assms
    by (intro drain_idle) (simp add: microtasks_invoke_Deferred microtasks_resolve_no_reactions)
  have "result_of p (toggle False (invoke (Deferred p v f) w1)) = result_of p (resolve p v w1)"
    by (rule result_of_cong) (simp add: promises_invoke_Deferred)
  then show "result_of p (toggle False (invoke (Deferred p v f) w1)) = Some v"
    using assms(1) by (simp add: result_of_resolve_fresh)
  show "trace (toggle False (invoke (Deferred p v f) w1)) =
           trace w1 @ Invoke (Deferred p v f) # user_calls f @ [Toggle False]"
    by simp
qed

lemma count_calls_Deferred_path:
  "length (filter (calls m) (Invoke (Deferred p v f) # user_calls f @ [Toggle False])) =
     (if f = Some m then 1 else 0)"
  by (cases f) (auto simp: user_calls_def)

text \<open>
  C2. When the dirty flag is true, \<open>confirm()\<close> opens the dialog and returns a pending
  promise. A click on the confirm button resolves it to \<open>true\<close> and calls the closure built
  for the request, which calls the configured \<open>onConfirm\<close> when there is one: that function
  is called once and no other function of the caller is called. A click on the cancel
  button (or the close icon) resolves it to \<open>false\<close> and calls the configured \<open>onCancel\<close>
  once, and no other function of the caller.
\<close>

theorem dirty_confirm_resolves_by_user_choice:
  assumes "isDirty_of cfg" and "microtasks w = []" and "usePrompt_confirm cfg w = (p, w1)"
  shows "pending p w1 \<and> visible (render w1) \<and>
         result_of p (click ConfirmButton w1) = Some True \<and>
         events_since w1 (click ConfirmButton w1) =
           Invoke (Deferred p True (onConfirm cfg)) # user_calls (onConfirm cfg) @ [Toggle False] \<and>
         (\<forall>m. length (filter (calls m) (events_since w1 (click ConfirmButton w1))) =
            (if onConfirm cfg = Some m then 1 else 0)) \<and>
         result_of p (click CancelButton w1) = Some False \<and>
         events_since w1 (click CancelButton w1) =
           Invoke (Deferred p False (onCancel cfg)) # user_calls (onCancel cfg) @ [Toggle False] \<and>
         (\<forall>m. length (filter (calls m) (events_since w1 (click CancelButton w1))) =
            (if onCancel cfg = Some m then 1 else 0)) \<and>
         click CloseIcon w1 = click CancelButton w1"
proof -
  note a = after_dirty_confirm [OF assms(1,3)]
  have m: "microtasks w1 = []" using a(6) assms(2) by simp
  note c = provider_path_on_Deferred [OF a(4) a(5) m]
  have k: "ConfirmProvider_onConfirm w1 = toggle False (invoke (Deferred p True (onConfirm cfg)) w1)"
    "ConfirmProvider_onCancel w1 = toggle False (invoke (Deferred p False (onCancel cfg)) w1)"
    by (simp_all add: ConfirmProvider_onConfirm_def ConfirmProvider_onCancel_def a(2) opt_invoke_def)
  have v: "visible (render w1)"
    using a(3) by (simp add: render_def Confirm_props_def Confirm_def Let_def)
  have t: "result_of p (click ConfirmButton w1) = Some True"
    "result_of p (click CancelButton w1) = Some False"
    unfolding click_eq k c(1) by (rule c(2))+
  have e: "events_since w1 (click ConfirmButton w1) =
             Invoke (Deferred p True (onConfirm cfg)) # user_calls (onConfirm cfg) @ [Toggle False]"
    "events_since w1 (click CancelButton w1) =
             Invoke (Deferred p False (onCancel cfg)) # user_calls (onCancel cfg) @ [Toggle False]"
    unfolding click_eq k c(1) by (rule events_since_append, rule c(3))+
  have n: "\<forall>m. length (filter (calls m) (events_since w1 (click ConfirmButton w1))) =
            (if onConfirm cfg = Some m then 1 else 0)"
    "\<forall>m. length (filter (calls m) (events_since w1 (click CancelButton w1))) =
            (if onCancel cfg = Some m then 1 else 0)"
    unfolding e by (simp_all only: count_calls_Deferred_path simp_thms)
  show ?thesis
    using a(4) v t e n by (simp only: click_eq simp_thms)
qed

text \<open>
  C2, for a guard configured with the functions 7 and 8, in the initial state: confirming
  calls 7 once and 8 never, cancelling calls 8 once and 7 never.
\<close>

theorem dirty_confirm_resolves_by_user_choice_witness:
  "isDirty_of example_guard \<and> microtasks (initial ''/contact'') = [] \<and>
   result_of 0 (click ConfirmButton (snd (usePrompt_confirm example_guard (initial ''/contact'')))) =
     Some True \<and>
   length (filter (calls 7)
     (events_since (snd (usePrompt_confirm example_guard (initial ''/contact'')))
        (click ConfirmButton (snd (usePrompt_confirm example_guard (initial ''/contact'')))))) = 1 \<and>
   length (filter (calls 8)
     (events_since (snd (usePrompt_confirm example_guard (initial ''/contact'')))
        (click ConfirmButton (snd (usePrompt_confirm example_guard (initial ''/contact'')))))) = 0 \<and>
   result_of 0 (click CancelButton (snd (usePrompt_confirm example_guard (initial ''/contact'')))) =
     Some False \<and>
   length (filter (calls 8)
     (events_since (snd (usePrompt_confirm example_guard (initial ''/contact'')))
        (click CancelButton (snd (usePrompt_confirm example_guard (initial ''/contact'')))))) = 1 \<and>
   length (filter (calls 7)
     (events_since (snd (usePrompt_confirm example_guard (initial ''/contact'')))
        (click CancelButton (snd (usePrompt_confirm example_guard (initial ''/contact'')))))) = 0"
proof -
  have d: "isDirty_of example_guard"
    by (simp add: isDirty_of_def example_guard_def)
  have i: "microtasks (initial ''/contact'') = []"
    by (simp add: initial_def)
  have p: "usePrompt_confirm example_guard (initial ''/contact'') =
             (0, snd (usePrompt_confirm example_guard (initial ''/contact'')))"
    by (simp add: usePrompt_confirm_dirty [OF d] initial_def)
  have f: "onConfirm example_guard = Some 7" "onCancel example_guard = Some 8"
    by (simp_all add: example_guard_def)
  show ?thesis
    using dirty_confirm_resolves_by_user_choice [OF d i p] d i by (simp add: f user_calls_def)
qed

section \<open>The guard and the routing layer\<close>

lemma render_after_request:
  "confirm w = Some (confirm_request cfg p) \<Longrightarrow>
   render w =
     \<lparr>visible = open w, heading = Some (title_of cfg), message = Some (subtitle_of cfg),
      cancelLabel = Some (cancelText_of cfg), confirmLabel = Some (confirmText_of cfg),
      severity_shown = type_of cfg,
      closeIcon_onClick = Some ProviderOnCancel,
      cancelButton_onClick = Some ProviderOnCancel,
      confirmButton_onClick = Some ProviderOnConfirm\<rparr>"
  by (simp add: render_def Confirm_props_def Confirm_def confirm_request_def)

lemma Promise_then_fields [simp]:
  "confirm (Promise_then p k w) = confirm w" "open (Promise_then p k w) = open w"
  "blocker (Promise_then p k w) = blocker w" "location (Promise_then p k w) = location w"
  "onbeforeunload (Promise_then p k w) = onbeforeunload w"
  "trace (Promise_then p k w) = trace w"
  by (simp_all add: Promise_then_def split: option.splits)

lemma Promise_then_pending:
  "pending p w \<Longrightarrow>
   Promise_then p k w =
     w\<lparr>promises := (promises w)[p := (promises w ! p)\<lparr>reactions := reactions (promises w ! p) @ [k]\<rparr>]\<rparr>"
  by (simp add: Promise_then_def pending_def)

lemma blocker_proceed_fields [simp]:
  "confirm (blocker_proceed w) = confirm w" "open (blocker_proceed w) = open w"
  "promises (blocker_proceed w) = promises w" "microtasks (blocker_proceed w) = microtasks w"
  "onbeforeunload (blocker_proceed w) = onbeforeunload w"
  "trace (blocker_proceed w) = trace w @ [Proceed]"
  "blocker (blocker_proceed w) = Unblocked"
  "location (blocker_proceed w) = (case blocker w of Blocked t \<Rightarrow> t | Unblocked \<Rightarrow> location w)"
  by (simp_all add: blocker_proceed_def split: blocker_state.splits)

lemma blocker_reset_fields [simp]:
  "confirm (blocker_reset w) = confirm w" "open (blocker_reset w) = open w"
  "promises (blocker_reset w) = promises w" "microtasks (blocker_reset w) = microtasks w"
  "onbeforeunload (blocker_reset w) = onbeforeunload w"
  "trace (blocker_reset w) = trace w @ [Reset]"
  "blocker (blocker_reset w) = Unblocked"
  "location (blocker_reset w) = location w"
  by (simp_all add: blocker_reset_def)

lemma drain_one:
  "microtasks w = [(BlockerDecision, r)] \<Longrightarrow>
   drain w = (if r then blocker_proceed (w\<lparr>microtasks := []\<rparr>)
              else blocker_reset (w\<lparr>microtasks := []\<rparr>))"
  by (simp add: drain_def)

text \<open>The blocker effect of a dirty guard, run on a blocked transition.\<close>

lemma blocked_dirty_effect:
  assumes "isDirty_of cfg" "blocker w = Blocked target" "microtasks w = []"
  defines "p \<equiv> length (promises w)"
  defines "w1 \<equiv> act w (RunBlockerEffect cfg)"
  shows "w1 = ConfirmProvider_show (Some (confirm_request cfg p))
               (w\<lparr>promises := promises w @ [\<lparr>settled = None, reactions = [BlockerDecision]\<rparr>]\<rparr>)"
  using assms(1-3) unfolding w1_def p_def
  by (simp add: usePrompt_blocker_effect_def usePrompt_confirm_dirty Promise_then_def
      ConfirmProvider_show_def toggle_def setConfirm_def emit_def)

lemma resolve_waiting:
  "p = length ps \<Longrightarrow> promises w = ps @ [\<lparr>settled = None, reactions = [BlockerDecision]\<rparr>] \<Longrightarrow>
   microtasks w = [] \<Longrightarrow>
   resolve p v w =
     w\<lparr>promises := ps @ [\<lparr>settled = Some v, reactions = []\<rparr>],
       microtasks := [(BlockerDecision, v)]\<rparr>"
  by (simp add: resolve_def)

lemma blocked_dirty_click:
  assumes "isDirty_of cfg" "blocker w = Blocked target" "microtasks w = []"
  defines "p \<equiv> length (promises w)"
  defines "w1 \<equiv> act w (RunBlockerEffect cfg)"
  shows "result_of p (click ConfirmButton w1) = Some True"
    and "events_since w1 (click ConfirmButton w1) =
           Invoke (Deferred p True (onConfirm cfg)) # user_calls (onConfirm cfg) @
           [Toggle False, Proceed]"
    and "location (click ConfirmButton w1) = target"
    and "blocker (click ConfirmButton w1) = Unblocked"
    and "result_of p (click CancelButton w1) = Some False"
    and "events_since w1 (click CancelButton w1) =
           Invoke (Deferred p False (onCancel cfg)) # user_calls (onCancel cfg) @
           [Toggle False, Reset]"
    and "location (click CancelButton w1) = location w"
    and "blocker (click CancelButton w1) = Unblocked"
proof -
  note w1 = blocked_dirty_effect [OF assms(1-3), folded p_def w1_def]
  have ps: "promises w1 = promises w @ [\<lparr>settled = None, reactions = [BlockerDecision]\<rparr>]"
    and mt: "microtasks w1 = []" and tr: "trace w1 = trace w @ [SetConfirm (Some (confirm_request cfg p)), Toggle True]"
    and bl: "blocker w1 = Blocked target" and lo: "location w1 = location w"
    and cf: "confirm w1 = Some (confirm_request cfg p)"
    using assms(2,3) by (simp_all add: w1)
  have pl: "p = length (promises w)" by (simp add: p_def)
  have inv: "\<And>v f. promises (invoke (Deferred p v f) w1) =
                promises w @ [\<lparr>settled = Some v, reactions = []\<rparr>]"
    "\<And>v f. microtasks (invoke (Deferred p v f) w1) = [(BlockerDecision, v)]"
    by (simp_all add: promises_invoke_Deferred microtasks_invoke_Deferred
        resolve_waiting [OF pl ps mt])
  have k: "ConfirmProvider_onConfirm w1 = toggle False (invoke (Deferred p True (onConfirm cfg)) w1)"
    "ConfirmProvider_onCancel w1 = toggle False (invoke (Deferred p False (onCancel cfg)) w1)"
    by (simp_all add: ConfirmProvider_onConfirm_def ConfirmProvider_onCancel_def cf opt_invoke_def)
  have d: "\<And>v f. drain (toggle False (invoke (Deferred p v f) w1)) =
             (if v then blocker_proceed ((toggle False (invoke (Deferred p v f) w1))\<lparr>microtasks := []\<rparr>)
              else blocker_reset ((toggle False (invoke (Deferred p v f) w1))\<lparr>microtasks := []\<rparr>))"
    by (rule drain_one) (simp add: inv)
  have r: "promises (click ConfirmButton w1) = promises w @ [\<lparr>settled = Some True, reactions = []\<rparr>]"
    "promises (click CancelButton w1) = promises w @ [\<lparr>settled = Some False, reactions = []\<rparr>]"
    by (simp_all add: k d inv)
  show "result_of p (click ConfirmButton w1) = Some True"
    unfolding result_of_def r by (simp add: pl)
  show "result_of p (click CancelButton w1) = Some False"
    unfolding result_of_def r by (simp add: pl)
  show "events_since w1 (click ConfirmButton w1) =
           Invoke (Deferred p True (onConfirm cfg)) # user_calls (onConfirm cfg) @
           [Toggle False, Proceed]"
    by (rule events_since_append) (simp add: k d)
  show "events_since w1 (click CancelButton w1) =
           Invoke (Deferred p False (onCancel cfg)) # user_calls (onCancel cfg) @
           [Toggle False, Reset]"
    by (rule events_since_append) (simp add: k d)
  show "location (click ConfirmButton w1) = target"
    by (simp add: k d bl)
  show "blocker (click ConfirmButton w1) = Unblocked"
    by (simp add: k d)
  show "location (click CancelButton w1) = location w"
    by (simp add: k d lo)
  show "blocker (click CancelButton w1) = Unblocked"
    by (simp add: k d)
qed

lemma blocked_clean_effect:
  assumes "\<not> isDirty_of cfg" "blocker w = Blocked target" "microtasks w = []"
  shows "events_since w (act w (RunBlockerEffect cfg)) = [Proceed]"
    and "location (act w (RunBlockerEffect cfg)) = target"
    and "blocker (act w (RunBlockerEffect cfg)) = Unblocked"
    and "result_of (length (promises w)) (act w (RunBlockerEffect cfg)) = Some True"
    and "open (act w (RunBlockerEffect cfg)) = open w"
proof -
  have e: "usePrompt_blocker_effect cfg w =
             w\<lparr>promises := promises w @ [\<lparr>settled = Some True, reactions = []\<rparr>],
               microtasks := [(BlockerDecision, True)]\<rparr>"
    using assms by (simp add: usePrompt_blocker_effect_def usePrompt_confirm_clean Promise_then_def)
  have d: "drain (usePrompt_blocker_effect cfg w) =
             blocker_proceed (w\<lparr>promises := promises w @ [\<lparr>settled = Some True, reactions = []\<rparr>],
               microtasks := []\<rparr>)"
    by (simp add: e drain_one [where r = True])
  show "events_since w (act w (RunBlockerEffect cfg)) = [Proceed]"
    by (rule events_since_append) (simp add: d)
  show "location (act w (RunBlockerEffect cfg)) = target"
    using assms(2) by (simp add: d)
  show "blocker (act w (RunBlockerEffect cfg)) = Unblocked"
    by (simp add: d)
  show "result_of (length (promises w)) (act w (RunBlockerEffect cfg)) = Some True"
    by (simp add: d result_of_def)
  show "open (act w (RunBlockerEffect cfg)) = open w"
    by (simp add: d)
qed

lemma rerender_on_report:
  "seen_blocker g \<noteq> blocker w \<Longrightarrow>
   usePrompt_rerender (props g) g w =
     (g\<lparr>seen_blocker := blocker w\<rparr>, act w (RunBlockerEffect (props g)))"
  by (simp add: usePrompt_rerender_def Let_def)

text \<open>
  C4. A blocked transition reported to a guard instance (the blocker it sees has changed
  to \<open>blocked\<close>) makes its blocker effect run, which calls \<open>confirm()\<close> and attaches the
  decision to the promise. With the dirty flag set the dialog opens with the configured
  title, subtitle, button texts and severity, and the transition waits: a click on the
  confirm button resolves the promise to \<open>true\<close> and \<open>proceed()\<close> is called, which takes
  the location to the target; a click on the cancel button resolves it to \<open>false\<close> and
  \<open>reset()\<close> is called, which leaves the location as it was. With the flag cleared the
  promise is \<open>true\<close> at once and \<open>proceed()\<close> is called without a dialog. A guard given
  only the dirty flag shows the title \<open>You have unsaved changes!\<close> and the button texts
  \<open>Leave\<close> and \<open>Stay\<close>.
\<close>

theorem blocked_transition_follows_confirm:
  fixes cfg :: "nat PromptOptions"
  assumes "blocker w = Blocked target" and "microtasks w = []"
  defines "p \<equiv> length (promises w)"
  defines "w1 \<equiv> act w (RunBlockerEffect cfg)"
  shows "(seen_blocker g \<noteq> blocker w \<longrightarrow>
            usePrompt_rerender (props g) g w =
              (g\<lparr>seen_blocker := blocker w\<rparr>, act w (RunBlockerEffect (props g)))) \<and>
         (isDirty_of cfg \<longrightarrow>
            w1 = ConfirmProvider_show (Some (confirm_request cfg p))
                   (w\<lparr>promises := promises w @ [\<lparr>settled = None, reactions = [BlockerDecision]\<rparr>]\<rparr>) \<and>
            render w1 =
              \<lparr>visible = True, heading = Some (title_of cfg), message = Some (subtitle_of cfg),
               cancelLabel = Some (cancelText_of cfg), confirmLabel = Some (confirmText_of cfg),
               severity_shown = type_of cfg,
               closeIcon_onClick = Some ProviderOnCancel,
               cancelButton_onClick = Some ProviderOnCancel,
               confirmButton_onClick = Some ProviderOnConfirm\<rparr> \<and>
            pending p w1 \<and> blocker w1 = Blocked target \<and> location w1 = location w \<and>
            result_of p (click ConfirmButton w1) = Some True \<and>
            events_since w1 (click ConfirmButton w1) =
              Invoke (Deferred p True (onConfirm cfg)) # user_calls (onConfirm cfg) @
              [Toggle False, Proceed] \<and>
            location (click ConfirmButton w1) = target \<and>
            blocker (click ConfirmButton w1) = Unblocked \<and>
            result_of p (click CancelButton w1) = Some False \<and>
            events_since w1 (click CancelButton w1) =
              Invoke (Deferred p False (onCancel cfg)) # user_calls (onCancel cfg) @
              [Toggle False, Reset] \<and>
            location (click CancelButton w1) = location w \<and>
            blocker (click CancelButton w1) = Unblocked) \<and>
         (\<not> isDirty_of cfg \<longrightarrow>
            result_of p w1 = Some True \<and> events_since w w1 = [Proceed] \<and>
            location w1 = target \<and> blocker w1 = Unblocked \<and> open w1 = open w) \<and>
         title_of (default_guard d) = ''You have unsaved changes!'' \<and>
         confirmText_of (default_guard d) = ''Leave'' \<and>
         cancelText_of (default_guard d) = ''Stay''"
proof -
  have labels: "title_of (default_guard d) = ''You have unsaved changes!''"
    "confirmText_of (default_guard d) = ''Leave''" "cancelText_of (default_guard d) = ''Stay''"
    by (simp_all add: title_of_def confirmText_of_def cancelText_of_def default_guard_def)
  have report: "seen_blocker g \<noteq> blocker w \<longrightarrow>
            usePrompt_rerender (props g) g w =
              (g\<lparr>seen_blocker := blocker w\<rparr>, act w (RunBlockerEffect (props g)))"
    using rerender_on_report [of g w] by blast
  have dirty: "isDirty_of cfg \<longrightarrow>
            w1 = ConfirmProvider_show (Some (confirm_request cfg p))
                   (w\<lparr>promises := promises w @ [\<lparr>settled = None, reactions = [BlockerDecision]\<rparr>]\<rparr>) \<and>
            render w1 =
              \<lparr>visible = True, heading = Some (title_of cfg), message = Some (subtitle_of cfg),
               cancelLabel = Some (cancelText_of cfg), confirmLabel = Some (confirmText_of cfg),
               severity_shown = type_of cfg,
               closeIcon_onClick = Some ProviderOnCancel,
               cancelButton_onClick = Some ProviderOnCancel,
               confirmButton_onClick = Some ProviderOnConfirm\<rparr> \<and>
            pending p w1 \<and> blocker w1 = Blocked target \<and> location w1 = location w \<and>
            result_of p (click ConfirmButton w1) = Some True \<and>
            events_since w1 (click ConfirmButton w1) =
              Invoke (Deferred p True (onConfirm cfg)) # user_calls (onConfirm cfg) @
              [Toggle False, Proceed] \<and>
            location (click ConfirmButton w1) = target \<and>
            blocker (click ConfirmButton w1) = Unblocked \<and>
            result_of p (click CancelButton w1) = Some False \<and>
            events_since w1 (click CancelButton w1) =
              Invoke (Deferred p False (onCancel cfg)) # user_calls (onCancel cfg) @
              [Toggle False, Reset] \<and>
            location (click CancelButton w1) = location w \<and>
            blocker (click CancelButton w1) = Unblocked"
  proof
    assume dc: "isDirty_of cfg"
    note e = blocked_dirty_effect [OF dc assms(1,2), folded p_def w1_def]
    note c = blocked_dirty_click [OF dc assms(1,2), folded p_def w1_def]
    have r: "render w1 =
              \<lparr>visible = True, heading = Some (title_of cfg), message = Some (subtitle_of cfg),
               cancelLabel = Some (cancelText_of cfg), confirmLabel = Some (confirmText_of cfg),
               severity_shown = type_of cfg,
               closeIcon_onClick = Some ProviderOnCancel,
               cancelButton_onClick = Some ProviderOnCancel,
               confirmButton_onClick = Some ProviderOnConfirm\<rparr>"
      by (simp add: render_after_request [where cfg = cfg and p = p] e)
    have s: "pending p w1" "blocker w1 = Blocked target" "location w1 = location w"
      using assms(1) by (simp_all add: e pending_def p_def)
    show "w1 = ConfirmProvider_show (Some (confirm_request cfg p))
                   (w\<lparr>promises := promises w @ [\<lparr>settled = None, reactions = [BlockerDecision]\<rparr>]\<rparr>) \<and>
            render w1 =
              \<lparr>visible = True, heading = Some (title_of cfg), message = Some (subtitle_of cfg),
               cancelLabel = Some (cancelText_of cfg), confirmLabel = Some (confirmText_of cfg),
               severity_shown = type_of cfg,
               closeIcon_onClick = Some ProviderOnCancel,
               cancelButton_onClick = Some ProviderOnCancel,
               confirmButton_onClick = Some ProviderOnConfirm\<rparr> \<and>
            pending p w1 \<and> blocker w1 = Blocked target \<and> location w1 = location w \<and>
            result_of p (click ConfirmButton w1) = Some True \<and>
            events_since w1 (click ConfirmButton w1) =
              Invoke (Deferred p True (onConfirm cfg)) # user_calls (onConfirm cfg) @
              [Toggle False, Proceed] \<and>
            location (click ConfirmButton w1) = target \<and>
            blocker (click ConfirmButton w1) = Unblocked \<and>
            result_of p (click CancelButton w1) = Some False \<and>
            events_since w1 (click CancelButton w1) =
              Invoke (Deferred p False (onCancel cfg)) # user_calls (onCancel cfg) @
              [Toggle False, Reset] \<and>
            location (click CancelButton w1) = location w \<and>
            blocker (click CancelButton w1) = Unblocked"
      by (intro conjI) (rule e r s c)+
  qed
  have clean: "\<not> isDirty_of cfg \<longrightarrow>
            result_of p w1 = Some True \<and> events_since w w1 = [Proceed] \<and>
            location w1 = target \<and> blocker w1 = Unblocked \<and> open w1 = open w"
  proof
    assume nc: "\<not> isDirty_of cfg"
    note b = blocked_clean_effect [OF nc assms(1,2), folded p_def w1_def]
    show "result_of p w1 = Some True \<and> events_since w w1 = [Proceed] \<and>
            location w1 = target \<and> blocker w1 = Unblocked \<and> open w1 = open w"
      by (intro conjI) (rule b)+
  qed
  show ?thesis
    by (intro conjI) (rule report dirty clean labels)+
qed

text \<open>
  C4, on the contact page: the dialog of \<^verbatim>\<open>usePrompt({ isDirty: true })\<close> has the default
  title and button texts, \<open>Stay\<close> keeps the location, \<open>Leave\<close> changes it; with the flag
  cleared the transition proceeds at once.
\<close>

theorem blocked_transition_follows_confirm_witness:
  "blocker blocked_world = Blocked ''/about'' \<and> microtasks blocked_world = [] \<and>
   seen_blocker mounted_guard \<noteq> blocker blocked_world \<and>
   isDirty_of (default_guard True) \<and> \<not> isDirty_of (default_guard False) \<and>
   usePrompt_rerender (default_guard True) mounted_guard blocked_world =
     (mounted_guard\<lparr>seen_blocker := Blocked ''/about''\<rparr>,
      act blocked_world (RunBlockerEffect (default_guard True))) \<and>
   heading (render (act blocked_world (RunBlockerEffect (default_guard True)))) =
     Some ''You have unsaved changes!'' \<and>
   confirmLabel (render (act blocked_world (RunBlockerEffect (default_guard True)))) =
     Some ''Leave'' \<and>
   cancelLabel (render (act blocked_world (RunBlockerEffect (default_guard True)))) =
     Some ''Stay'' \<and>
   location (act blocked_world (RunBlockerEffect (default_guard True))) = ''/contact'' \<and>
   result_of 0 (click CancelButton (act blocked_world (RunBlockerEffect (default_guard True)))) =
     Some False \<and>
   location (click CancelButton (act blocked_world (RunBlockerEffect (default_guard True)))) =
     ''/contact'' \<and>
   result_of 0 (click ConfirmButton (act blocked_world (RunBlockerEffect (default_guard True)))) =
     Some True \<and>
   location (click ConfirmButton (act blocked_world (RunBlockerEffect (default_guard True)))) =
     ''/about'' \<and>
   events_since blocked_world (act blocked_world (RunBlockerEffect (default_guard False))) =
     [Proceed] \<and>
   location (act blocked_world (RunBlockerEffect (default_guard False))) = ''/about''"
proof -
  have b: "blocker blocked_world = Blocked ''/about''" and m: "microtasks blocked_world = []"
    and l: "location blocked_world = ''/contact''" and n: "length (promises blocked_world) = 0"
    by (simp_all add: blocked_world_def router_navigate_def initial_def)
  have g: "seen_blocker mounted_guard \<noteq> blocker blocked_world"
    "props mounted_guard = default_guard True"
    by (simp_all add: b mounted_guard_def)
  have d: "isDirty_of (default_guard True)" "\<not> isDirty_of (default_guard False)"
    by (simp_all add: isDirty_of_def default_guard_def)
  have t: "title_of (default_guard True) = ''You have unsaved changes!''"
    "confirmText_of (default_guard True) = ''Leave''"
    "cancelText_of (default_guard True) = ''Stay''"
    by (simp_all add: title_of_def confirmText_of_def cancelText_of_def default_guard_def)
  note dirty = blocked_transition_follows_confirm
    [OF b m, where cfg = "default_guard True" and g = mounted_guard and d = True]
  note clean = blocked_transition_follows_confirm
    [OF b m, where cfg = "default_guard False" and g = mounted_guard and d = True]
  have vd: "render (act blocked_world (RunBlockerEffect (default_guard True))) =
              \<lparr>visible = True, heading = Some ''You have unsaved changes!'',
               message = Some (subtitle_of (default_guard True)),
               cancelLabel = Some ''Stay'', confirmLabel = Some ''Leave'',
               severity_shown = type_of (default_guard True),
               closeIcon_onClick = Some ProviderOnCancel,
               cancelButton_onClick = Some ProviderOnCancel,
               confirmButton_onClick = Some ProviderOnConfirm\<rparr>"
    using dirty d(1) unfolding t by blast
  have r: "usePrompt_rerender (default_guard True) mounted_guard blocked_world =
     (mounted_guard\<lparr>seen_blocker := Blocked ''/about''\<rparr>,
      act blocked_world (RunBlockerEffect (default_guard True)))"
    using dirty g(1) unfolding g(2) b by blast
  have cd: "location (act blocked_world (RunBlockerEffect (default_guard True))) = ''/contact''"
    "result_of 0 (click CancelButton (act blocked_world (RunBlockerEffect (default_guard True)))) =
     Some False"
    "location (click CancelButton (act blocked_world (RunBlockerEffect (default_guard True)))) =
     ''/contact''"
    "result_of 0 (click ConfirmButton (act blocked_world (RunBlockerEffect (default_guard True)))) =
     Some True"
    "location (click ConfirmButton (act blocked_world (RunBlockerEffect (default_guard True)))) =
     ''/about''"
    using dirty d(1) unfolding n l by blast+
  have cc: "events_since blocked_world (act blocked_world (RunBlockerEffect (default_guard False))) =
     [Proceed]"
    "location (act blocked_world (RunBlockerEffect (default_guard False))) = ''/about''"
    using clean d(2) by blast+
  show ?thesis
    unfolding vd view.simps
    by (intro conjI) (rule b m g(1) d r cd cc refl)+
qed

section \<open>The before-unload registration\<close>

lemma onbeforeunload_run_microtask [simp]:
  "onbeforeunload (run_microtask w t) = onbeforeunload w"
  by (cases t; cases "fst t") (auto simp: split: if_splits)

lemma onbeforeunload_foldl_microtasks:
  "onbeforeunload (foldl run_microtask w ts) = onbeforeunload w"
  by (induction ts arbitrary: w) simp_all

lemma onbeforeunload_drain [simp]: "onbeforeunload (drain w) = onbeforeunload w"
  by (simp add: drain_def onbeforeunload_foldl_microtasks)

lemma onbeforeunload_usePrompt_confirm [simp]:
  "onbeforeunload (snd (usePrompt_confirm cfg w)) = onbeforeunload w"
  by (cases "isDirty_of cfg") (simp_all add: usePrompt_confirm_clean usePrompt_confirm_dirty)

lemma onbeforeunload_blocker_effect [simp]:
  "onbeforeunload (usePrompt_blocker_effect cfg w) = onbeforeunload w"
  by (cases "isDirty_of cfg")
    (simp_all add: usePrompt_blocker_effect_def usePrompt_confirm_clean usePrompt_confirm_dirty
      split: blocker_state.splits)

lemma unload_effect_frame:
  "usePrompt_unload_effect cfg w =
     w\<lparr>onbeforeunload :=
         (if isDirty_of cfg then Some (Returns (subtitle_of cfg)) else onbeforeunload w)\<rparr>"
  by (simp add: usePrompt_unload_effect_def)

lemma onbeforeunload_unload_effect [simp]:
  "onbeforeunload (usePrompt_unload_effect cfg w) =
     (if isDirty_of cfg then Some (Returns (subtitle_of cfg)) else onbeforeunload w)"
  by (simp add: usePrompt_unload_effect_def)

lemma onbeforeunload_unload_cleanup [simp]:
  "onbeforeunload (usePrompt_unload_cleanup w) = None"
  by (simp add: usePrompt_unload_cleanup_def)

lemma blocker_unload_cleanup [simp]: "blocker (usePrompt_unload_cleanup w) = blocker w"
  by (simp add: usePrompt_unload_cleanup_def)

text \<open>
  The first render of a guard: under a data router and a provider it mounts; under a data
  router without a provider it throws the error of \<open>useConfirm\<close>; without a data router
  it throws the error of \<open>useBlocker\<close>, whatever else is above.
\<close>

lemma mount_with_provider:
  "RouterProviderNode \<in> set ancestors \<Longrightarrow> ConfirmProviderNode \<in> set ancestors \<Longrightarrow>
   usePrompt_mount ancestors cfg w =
     Inr (\<lparr>props = cfg, seen_blocker = blocker w\<rparr>,
          drain (usePrompt_unload_effect cfg (usePrompt_blocker_effect cfg w)))"
  by (simp add: usePrompt_mount_def useBlocker_def useConfirm_with_provider)

lemma mount_without_provider:
  "RouterProviderNode \<in> set ancestors \<Longrightarrow> ConfirmProviderNode \<notin> set ancestors \<Longrightarrow>
   usePrompt_mount ancestors cfg w =
     Inl (JsError ''useConfirm must be used within a ConfirmProvider'')"
  by (simp add: usePrompt_mount_def useBlocker_def useConfirm_without_provider)

lemma mount_without_router:
  "RouterProviderNode \<notin> set ancestors \<Longrightarrow>
   usePrompt_mount ancestors cfg w = Inl DataRouterMissing"
  by (simp add: usePrompt_mount_def useBlocker_def)

lemma mount_Inr:
  "usePrompt_mount ancestors cfg w = Inr (g, w') \<Longrightarrow>
   g = \<lparr>props = cfg, seen_blocker = blocker w\<rparr> \<and>
   w' = drain (usePrompt_unload_effect cfg (usePrompt_blocker_effect cfg w))"
  by (auto simp: usePrompt_mount_def split: sum.splits)

lemma page_ancestors_providers:
  "RouterProviderNode \<in> set page_ancestors" "ConfirmProviderNode \<in> set page_ancestors"
  by (simp_all add: page_ancestors_def)

lemma props_rerender [simp]: "props (fst (usePrompt_rerender cfg g w)) = cfg"
  by (simp add: usePrompt_rerender_def Let_def)

lemma onbeforeunload_rerender:
  "onbeforeunload (snd (usePrompt_rerender cfg g w)) =
     (if unload_deps cfg \<noteq> unload_deps (props g)
      then (if isDirty_of cfg then Some (Returns (subtitle_of cfg)) else None)
      else onbeforeunload w)"
  by (simp add: usePrompt_rerender_def Let_def)

lemma installed_rerender:
  "installed g w \<Longrightarrow>
   installed (fst (usePrompt_rerender cfg g w)) (snd (usePrompt_rerender cfg g w))"
  by (auto simp: installed_def onbeforeunload_rerender unload_deps_def split: if_splits)

lemma onbeforeunload_navigate [simp]:
  "onbeforeunload (router_navigate b t w) = onbeforeunload w"
  by (simp add: router_navigate_def split: blocker_state.splits)

lemma onbeforeunload_act [simp]: "onbeforeunload (act w a) = onbeforeunload w"
proof (cases a)
  case (Click ctl)
  then show ?thesis by (cases ctl) simp_all
qed simp_all

lemma installed_act: "installed g w \<Longrightarrow> installed g (act w a)"
  by (simp add: installed_def)

lemma lives_installed:
  "installed g w \<Longrightarrow> lives es (g, w) = (g', w') \<Longrightarrow>
   installed g' w' \<and> props g' = last (props g # rendered es)"
proof (induction es "(g, w)" arbitrary: g w rule: lives.induct)
  case 1
  then show ?case by simp
next
  case (2 cfg es g w)
  obtain g1 w1 where s: "usePrompt_rerender cfg g w = (g1, w1)"
    by (cases "usePrompt_rerender cfg g w")
  have i: "installed g1 w1" and p: "props g1 = cfg"
    using installed_rerender [OF "2.prems"(1), of cfg] props_rerender [of cfg g w]
    by (simp_all add: s)
  from "2.prems"(2) have l: "lives es (g1, w1) = (g', w')"
    by (simp add: s)
  from "2.hyps" [OF s i l] show ?case
    by (simp add: p)
next
  case (3 a es g w)
  have i: "installed g (act w a)"
    using "3.prems"(1) by (rule installed_act)
  from "3.prems"(2) have l: "lives es (g, act w a) = (g', w')"
    by simp
  from "3.hyps" [OF i l] show ?case
    by simp
qed

lemma registered_rerender:
  "registered g w \<Longrightarrow>
   registered (fst (usePrompt_rerender cfg g w)) (snd (usePrompt_rerender cfg g w))"
  by (auto simp: registered_def onbeforeunload_rerender unload_deps_def split: if_splits)

lemma lives_registered:
  "registered g w \<Longrightarrow> lives es (g, w) = (g', w') \<Longrightarrow> registered g' w'"
proof (induction es "(g, w)" arbitrary: g w rule: lives.induct)
  case 1
  then show ?case by simp
next
  case (2 cfg es g w)
  obtain g1 w1 where s: "usePrompt_rerender cfg g w = (g1, w1)"
    by (cases "usePrompt_rerender cfg g w")
  have i: "registered g1 w1"
    using registered_rerender [OF "2.prems"(1), of cfg] by (simp add: s)
  from "2.prems"(2) have l: "lives es (g1, w1) = (g', w')"
    by (simp add: s)
  from "2.hyps" [OF s i l] show ?case .
next
  case (3 a es g w)
  have i: "registered g (act w a)"
    using "3.prems"(1) by (simp add: registered_def)
  from "3.prems"(2) have l: "lives es (g, act w a) = (g', w')"
    by simp
  from "3.hyps" [OF i l] show ?case .
qed

lemma subtitle_of_nonempty: "subtitle cfg \<noteq> Some [] \<Longrightarrow> subtitle_of cfg \<noteq> []"
  by (auto simp: subtitle_of_def split: option.splits)

text \<open>
  C7 (as amended). For one guard instance that is alone with the slot (after its mount
  it is rendered any number of times, and in between guards call \<open>confirm()\<close>, blocker
  effects run, consumers call \<open>show\<close>, the user clicks and navigations are attempted, but
  no other instance's before-unload effect or cleanup runs): while its dirty flag is
  true, the installed before-unload handler is its own and returns the subtitle in
  force (the configured one, or the default), which is a non-empty string unless the
  empty string was configured; when a render clears the flag, and when the instance
  unmounts, the slot is emptied and firing \<open>beforeunload\<close> finds no handler. When the slot
  was empty before the mount, a handler is there exactly while the flag is true.
\<close>

theorem unload_handler_follows_dirty_flag:
  assumes "usePrompt_mount ancestors cfg0 w0 = Inr (g0, w1)"
    and "lives es (g0, w1) = (g, w)"
  shows "props g = last (cfg0 # rendered es) \<and>
         (isDirty_of (props g) \<longrightarrow>
            fire_beforeunload w = Some (subtitle_of (props g)) \<and>
            (subtitle (props g) \<noteq> Some [] \<longrightarrow> subtitle_of (props g) \<noteq> []) \<and>
            (\<forall>cfg'. \<not> isDirty_of cfg' \<longrightarrow>
               fire_beforeunload (snd (usePrompt_rerender cfg' g w)) = None)) \<and>
         fire_beforeunload (usePrompt_unmount g w) = None \<and>
         (onbeforeunload w0 = None \<longrightarrow>
            fire_beforeunload w =
              (if isDirty_of (props g) then Some (subtitle_of (props g)) else None))"
proof -
  note m = mount_Inr [OF assms(1)]
  from m have g0: "props g0 = cfg0" and i0: "installed g0 w1"
    by (simp_all add: installed_def)
  have r0: "registered g0 w1" if "onbeforeunload w0 = None"
    using m that by (simp add: registered_def)
  have e: "fire_beforeunload w =
             (if isDirty_of (props g) then Some (subtitle_of (props g)) else None)"
    if "onbeforeunload w0 = None"
    using lives_registered [OF r0 [OF that] assms(2)]
    by (simp add: registered_def fire_beforeunload_def)
  from lives_installed [OF i0 assms(2)] have i: "installed g w"
    and p: "props g = last (cfg0 # rendered es)"
    by (simp_all add: g0)
  have u: "fire_beforeunload (usePrompt_unmount g w) = None"
    by (simp add: fire_beforeunload_def usePrompt_unmount_def)
  have d: "fire_beforeunload w = Some (subtitle_of (props g))" if "isDirty_of (props g)"
    using i that by (simp add: installed_def fire_beforeunload_def)
  have c: "fire_beforeunload (snd (usePrompt_rerender cfg' g w)) = None"
    if "isDirty_of (props g)" "\<not> isDirty_of cfg'" for cfg'
    using that by (simp add: fire_beforeunload_def onbeforeunload_rerender unload_deps_def)
  show ?thesis
    using p u d c e subtitle_of_nonempty by blast
qed

text \<open>
  C7, for the contact page in the application's tree: mounted clean with an empty slot
  (no handler), made dirty with a configured subtitle, a navigation elsewhere in between,
  then cleaned again or unmounted.
\<close>

theorem unload_handler_follows_dirty_flag_witness:
  "usePrompt_mount page_ancestors (default_guard False) (initial ''/contact'') =
     Inr (\<lparr>props = default_guard False, seen_blocker = Unblocked\<rparr>, initial ''/contact'') \<and>
   onbeforeunload (initial ''/contact'') = None \<and>
   fire_beforeunload (initial ''/contact'') = None \<and>
   isDirty_of example_guard \<and> \<not> isDirty_of (default_guard False) \<and>
   subtitle example_guard \<noteq> Some [] \<and> subtitle_of example_guard \<noteq> [] \<and>
   fire_beforeunload
     (snd (lives [Render example_guard, Other (Navigate False ''/about'')]
        (\<lparr>props = default_guard False, seen_blocker = Unblocked\<rparr>, initial ''/contact''))) =
     Some ''Your message is not sent yet.'' \<and>
   fire_beforeunload
     (snd (usePrompt_rerender (default_guard False)
        (fst (lives [Render example_guard, Other (Navigate False ''/about'')]
           (\<lparr>props = default_guard False, seen_blocker = Unblocked\<rparr>, initial ''/contact'')))
        (snd (lives [Render example_guard, Other (Navigate False ''/about'')]
           (\<lparr>props = default_guard False, seen_blocker = Unblocked\<rparr>, initial ''/contact''))))) =
     None \<and>
   fire_beforeunload
     (usePrompt_unmount
        (fst (lives [Render example_guard, Other (Navigate False ''/about'')]
           (\<lparr>props = default_guard False, seen_blocker = Unblocked\<rparr>, initial ''/contact'')))
        (snd (lives [Render example_guard, Other (Navigate False ''/about'')]
           (\<lparr>props = default_guard False, seen_blocker = Unblocked\<rparr>, initial ''/contact'')))) =
     None"
proof -
  let ?R = "lives [Render example_guard, Other (Navigate False ''/about'')]
             (\<lparr>props = default_guard False, seen_blocker = Unblocked\<rparr>, initial ''/contact'')"
  have d: "isDirty_of example_guard" "\<not> isDirty_of (default_guard False)"
    "subtitle example_guard \<noteq> Some []"
    "subtitle_of example_guard = ''Your message is not sent yet.''"
    by (simp_all add: isDirty_of_def subtitle_of_def example_guard_def default_guard_def)
  have m: "usePrompt_mount page_ancestors (default_guard False) (initial ''/contact'') =
             Inr (\<lparr>props = default_guard False, seen_blocker = Unblocked\<rparr>, initial ''/contact'')"
    by (simp add: mount_with_provider page_ancestors_providers usePrompt_unload_effect_def
        usePrompt_blocker_effect_def d initial_def)
  have r: "?R = (fst ?R, snd ?R)"
    by (rule prod.collapse [symmetric])
  have z: "onbeforeunload (initial ''/contact'') = None"
    by (simp add: initial_def)
  have r0: "lives []
              (\<lparr>props = default_guard False, seen_blocker = Unblocked\<rparr>, initial ''/contact'') =
            (\<lparr>props = default_guard False, seen_blocker = Unblocked\<rparr>, initial ''/contact'')"
    by simp
  note t0 = unload_handler_follows_dirty_flag [OF m r0]
  have f0: "fire_beforeunload (initial ''/contact'') = None"
    using t0 [THEN conjunct2, THEN conjunct2, THEN conjunct2, THEN mp, OF z] d(2) by simp
  note t = unload_handler_follows_dirty_flag [OF m r]
  have p: "props (fst ?R) = example_guard"
    using t [THEN conjunct1]
    by (simp only: rendered.simps last.simps list.simps if_False if_True simp_thms)
  have dp: "isDirty_of (props (fst ?R))"
    unfolding p by (rule d(1))
  note k = t [THEN conjunct2, THEN conjunct1, THEN mp, OF dp]
  have f: "fire_beforeunload (snd ?R) = Some ''Your message is not sent yet.''"
    using k [THEN conjunct1] unfolding p d(4) .
  have ne: "subtitle_of example_guard \<noteq> []"
    using k [THEN conjunct2, THEN conjunct1, THEN mp] d(3) unfolding p .
  have c: "fire_beforeunload (snd (usePrompt_rerender (default_guard False) (fst ?R) (snd ?R))) = None"
    using k [THEN conjunct2, THEN conjunct2, THEN spec, THEN mp, OF d(2)] .
  have u: "fire_beforeunload (usePrompt_unmount (fst ?R) (snd ?R)) = None"
    using t [THEN conjunct2, THEN conjunct2, THEN conjunct1] .
  show ?thesis
    by (intro conjI) (rule m z f0 d(1) d(2) d(3) ne f c u)+
qed

text \<open>
  C7 as stated fails for a guard configured with \<^verbatim>\<open>subtitle: ''\<close>: the flag is true and the
  installed handler returns the empty string.
\<close>

theorem unload_handler_nonempty_counterexample:
  "isDirty_of empty_subtitle_guard \<and>
   fire_beforeunload (usePrompt_unload_effect empty_subtitle_guard (initial ''/'')) = Some '''' \<and>
   map_sum id (fire_beforeunload \<circ> snd)
     (usePrompt_mount page_ancestors empty_subtitle_guard (initial ''/'')) = Inr (Some '''')"
  by (simp add: mount_with_provider page_ancestors_providers fire_beforeunload_def isDirty_of_def
      subtitle_of_def empty_subtitle_guard_def default_guard_def)

lemma unload_cleanup_frame: "usePrompt_unload_cleanup w = w\<lparr>onbeforeunload := None\<rparr>"
  by (simp add: usePrompt_unload_cleanup_def)

lemma onbeforeunload_mount:
  "usePrompt_mount ancestors cfg w = Inr (g, w') \<Longrightarrow>
   onbeforeunload w' =
     (if isDirty_of cfg then Some (Returns (subtitle_of cfg)) else onbeforeunload w)"
  by (auto simp: usePrompt_mount_def split: sum.splits)

text \<open>
  C10. The registration is one global slot written by assignment. The effect changes
  nothing in the world but the slot, and so do its cleanup and the unmount of an
  instance, which set the slot to \<open>null\<close> whatever it holds. Of two dirty guards the one
  whose effect ran later owns the slot; when both are mounted, the unmount of either one
  empties the slot, also when the handler in it belongs to the other, which is still
  dirty.
\<close>

theorem unload_slot_is_shared:
  "usePrompt_unload_effect cfg w =
     w\<lparr>onbeforeunload :=
         (if isDirty_of cfg then Some (Returns (subtitle_of cfg)) else onbeforeunload w)\<rparr> \<and>
   usePrompt_unload_cleanup w = w\<lparr>onbeforeunload := None\<rparr> \<and>
   usePrompt_unmount g w = w\<lparr>onbeforeunload := None\<rparr> \<and>
   (isDirty_of c1 \<and> isDirty_of c2 \<longrightarrow>
      onbeforeunload (usePrompt_unload_effect c2 (usePrompt_unload_effect c1 w)) =
        Some (Returns (subtitle_of c2))) \<and>
   (isDirty_of c1 \<and> isDirty_of c2 \<and>
    usePrompt_mount ancestors c1 w = Inr (g1, w1) \<and>
    usePrompt_mount ancestors c2 w1 = Inr (g2, w2) \<longrightarrow>
      onbeforeunload w1 = Some (Returns (subtitle_of c1)) \<and>
      onbeforeunload w2 = Some (Returns (subtitle_of c2)) \<and>
      onbeforeunload (usePrompt_unmount g1 w2) = None \<and>
      fire_beforeunload (usePrompt_unmount g1 w2) = None \<and>
      onbeforeunload (usePrompt_unmount g2 w2) = None \<and>
      fire_beforeunload (usePrompt_unmount g2 w2) = None)"
  by (auto simp: unload_effect_frame unload_cleanup_frame usePrompt_unmount_def
      fire_beforeunload_def dest: onbeforeunload_mount)

text \<open>
  C10, for the home page's guard and a second dirty guard mounted after it: the second
  handler is the one installed, and unmounting the first guard leaves no handler.
\<close>

theorem unload_slot_is_shared_witness:
  "isDirty_of (default_guard True) \<and> isDirty_of example_guard \<and>
   onbeforeunload
     (usePrompt_unload_effect example_guard
        (usePrompt_unload_effect (default_guard True) (initial ''/''))) =
     Some (Returns ''Your message is not sent yet.'') \<and>
   usePrompt_mount page_ancestors (default_guard True) (initial ''/'') =
     Inr (mounted_guard, home_dirty_world) \<and>
   usePrompt_mount page_ancestors example_guard home_dirty_world =
     Inr (\<lparr>props = example_guard, seen_blocker = Unblocked\<rparr>, both_dirty_world) \<and>
   onbeforeunload both_dirty_world = Some (Returns ''Your message is not sent yet.'') \<and>
   fire_beforeunload (usePrompt_unmount mounted_guard both_dirty_world) = None"
proof -
  have d: "isDirty_of (default_guard True)" "isDirty_of example_guard"
    "subtitle_of example_guard = ''Your message is not sent yet.''"
    "subtitle_of (default_guard True) = ''Are you sure you want to leave?''"
    by (simp_all add: isDirty_of_def subtitle_of_def example_guard_def default_guard_def)
  have m1: "usePrompt_mount page_ancestors (default_guard True) (initial ''/'') =
              Inr (mounted_guard, home_dirty_world)"
    by (simp add: mount_with_provider page_ancestors_providers usePrompt_blocker_effect_def usePrompt_unload_effect_def d
        mounted_guard_def home_dirty_world_def initial_def)
  have m2: "usePrompt_mount page_ancestors example_guard home_dirty_world =
              Inr (\<lparr>props = example_guard, seen_blocker = Unblocked\<rparr>, both_dirty_world)"
    by (simp add: mount_with_provider page_ancestors_providers usePrompt_blocker_effect_def usePrompt_unload_effect_def d
        home_dirty_world_def both_dirty_world_def initial_def)
  note t = unload_slot_is_shared [where ?c1.0 = "default_guard True" and ?c2.0 = example_guard
      and w = "initial ''/''" and ancestors = page_ancestors and ?g1.0 = mounted_guard
      and ?w1.0 = home_dirty_world and ?w2.0 = both_dirty_world
      and ?g2.0 = "\<lparr>props = example_guard, seen_blocker = Unblocked\<rparr>"]
  have s: "onbeforeunload
     (usePrompt_unload_effect example_guard
        (usePrompt_unload_effect (default_guard True) (initial ''/''))) =
     Some (Returns ''Your message is not sent yet.'')"
    using t [THEN conjunct2, THEN conjunct2, THEN conjunct2, THEN conjunct1, THEN mp,
        OF conjI [OF d(1) d(2)]]
    unfolding d(3) .
  note k = t [THEN conjunct2, THEN conjunct2, THEN conjunct2, THEN conjunct2, THEN mp,
        OF conjI [OF d(1) conjI [OF d(2) conjI [OF m1 m2]]]]
  have o: "onbeforeunload both_dirty_world = Some (Returns ''Your message is not sent yet.'')"
    using k [THEN conjunct2, THEN conjunct1] unfolding d(3) .
  have f: "fire_beforeunload (usePrompt_unmount mounted_guard both_dirty_world) = None"
    using k [THEN conjunct2, THEN conjunct2, THEN conjunct2, THEN conjunct1] .
  show ?thesis
    by (intro conjI) (rule d(1) d(2) s m1 m2 o f)+
qed

section \<open>An overwritten request is abandoned\<close>

lemma run_microtask_fields [simp]:
  "confirm (run_microtask w t) = confirm w" "promises (run_microtask w t) = promises w"
  "open (run_microtask w t) = open w"
  by (cases t; cases "fst t"; simp)+

lemma trace_run_microtask:
  "\<exists>e. is_decision e \<and> trace (run_microtask w t) = trace w @ [e]"
  by (cases t; cases "fst t"; cases "snd t"; simp)

lemma foldl_run_microtask:
  "confirm (foldl run_microtask w ts) = confirm w \<and>
   promises (foldl run_microtask w ts) = promises w \<and>
   (\<exists>evs. list_all is_decision evs \<and> trace (foldl run_microtask w ts) = trace w @ evs)"
proof (induction ts arbitrary: w)
  case Nil
  then show ?case by simp
next
  case (Cons t ts)
  obtain e where e: "is_decision e" "trace (run_microtask w t) = trace w @ [e]"
    using trace_run_microtask by blast
  obtain evs where evs: "list_all is_decision evs"
    "trace (foldl run_microtask (run_microtask w t) ts) = trace (run_microtask w t) @ evs"
    using Cons.IH [of "run_microtask w t"] by blast
  have "list_all is_decision (e # evs)"
    "trace (foldl run_microtask (run_microtask w t) ts) = trace w @ e # evs"
    using e evs by simp_all
  then show ?case
    using Cons.IH [of "run_microtask w t"] by (simp del: run_microtask.simps)
qed

lemma drain_fields [simp]:
  "confirm (drain w) = confirm w" "promises (drain w) = promises w"
  using foldl_run_microtask [of "w\<lparr>microtasks := []\<rparr>" "microtasks w"]
  by (simp_all add: drain_def)

lemma trace_drain: "\<exists>evs. list_all is_decision evs \<and> trace (drain w) = trace w @ evs"
  using foldl_run_microtask [of "w\<lparr>microtasks := []\<rparr>" "microtasks w"]
  by (simp add: drain_def)

lemma pending_cong: "promises w = promises w' \<Longrightarrow> pending p w = pending p w'"
  by (simp add: pending_def)

lemma stored_callbacks_cong: "confirm w = confirm w' \<Longrightarrow> stored_callbacks w = stored_callbacks w'"
  by (simp add: stored_callbacks_def)

lemma pending_resolve_other: "q \<noteq> p \<Longrightarrow> pending p (resolve q v w) = pending p w"
  by (simp add: pending_def resolve_def split: option.splits)

lemma pending_invoke: "\<not> settles p c \<Longrightarrow> pending p (invoke c w) = pending p w"
proof (cases c)
  case (External n)
  then show ?thesis by (simp add: pending_def)
next
  case (Deferred q v f)
  assume "\<not> settles p c"
  with Deferred have "q \<noteq> p" by simp
  have "pending p (invoke c w) = pending p (resolve q v w)"
    unfolding Deferred by (rule pending_cong) (rule promises_invoke_Deferred)
  then show ?thesis
    using \<open>q \<noteq> p\<close> by (simp add: pending_resolve_other)
qed

lemma pending_toggle [simp]: "pending p (toggle b w) = pending p w"
  by (simp add: pending_def)

lemma pending_show [simp]: "pending p (ConfirmProvider_show r w) = pending p w"
  by (simp add: pending_def)

lemma pending_drain [simp]: "pending p (drain w) = pending p w"
  by (simp add: pending_def)

lemma pending_onConfirm:
  "list_all (\<lambda>c. \<not> settles p c) (stored_callbacks w) \<Longrightarrow>
   pending p (ConfirmProvider_onConfirm w) = pending p w"
  by (auto simp: ConfirmProvider_onConfirm_def opt_invoke_def stored_callbacks_def
      given_functions_def pending_invoke split: option.splits)

lemma pending_onCancel:
  "list_all (\<lambda>c. \<not> settles p c) (stored_callbacks w) \<Longrightarrow>
   pending p (ConfirmProvider_onCancel w) = pending p w"
  by (auto simp: ConfirmProvider_onCancel_def opt_invoke_def stored_callbacks_def
      given_functions_def pending_invoke split: option.splits)

lemma pending_click:
  "list_all (\<lambda>c. \<not> settles p c) (stored_callbacks w) \<Longrightarrow> pending p (click ctl w) = pending p w"
  by (cases ctl) (simp_all add: pending_onConfirm pending_onCancel)

lemma pending_usePrompt_confirm:
  "pending p w \<Longrightarrow> pending p (snd (usePrompt_confirm cfg w))"
  by (cases "isDirty_of cfg")
    (simp_all add: usePrompt_confirm_clean usePrompt_confirm_dirty pending_def nth_append)

lemma pending_blocker_effect:
  "pending p w \<Longrightarrow> pending p (usePrompt_blocker_effect cfg w)"
  by (cases "isDirty_of cfg")
    (auto simp: usePrompt_blocker_effect_def usePrompt_confirm_clean usePrompt_confirm_dirty
      Promise_then_def pending_def nth_append ConfirmProvider_show_def toggle_def setConfirm_def
      emit_def split: blocker_state.splits)

lemma pending_navigate [simp]: "pending p (router_navigate b t w) = pending p w"
  by (simp add: pending_def router_navigate_def split: blocker_state.splits)

lemma pending_act:
  "unreachable p w \<Longrightarrow> pending p (act w a)"
  by (cases a)
    (simp_all add: unreachable_def pending_usePrompt_confirm pending_blocker_effect pending_click)

lemma confirm_usePrompt_confirm:
  "confirm (snd (usePrompt_confirm cfg w)) =
     (if isDirty_of cfg then Some (confirm_request cfg (length (promises w))) else confirm w)"
  by (simp add: usePrompt_confirm_clean usePrompt_confirm_dirty)

lemma confirm_blocker_effect:
  "confirm (usePrompt_blocker_effect cfg w) =
     (if isDirty_of cfg \<and> blocker w \<noteq> Unblocked
      then Some (confirm_request cfg (length (promises w))) else confirm w)"
  by (cases "isDirty_of cfg")
    (simp_all add: usePrompt_blocker_effect_def usePrompt_confirm_clean usePrompt_confirm_dirty
      split: blocker_state.splits)

lemma confirm_navigate [simp]: "confirm (router_navigate b t w) = confirm w"
  by (simp add: router_navigate_def split: blocker_state.splits)

lemma confirm_click [simp]: "confirm (click ctl w) = confirm w"
  by (cases ctl) simp_all

lemma confirm_act:
  "confirm (act w a) = (if calls_show w a then request_of w a else confirm w)"
  by (cases a) (simp_all add: confirm_usePrompt_confirm confirm_blocker_effect)

lemma stored_callbacks_request:
  "confirm w = Some (confirm_request cfg q) \<Longrightarrow>
   stored_callbacks w = [Deferred q True (onConfirm cfg), Deferred q False (onCancel cfg)]"
  by (simp add: stored_callbacks_def given_functions_def)

lemma stored_callbacks_external:
  "confirm w = map_option external_request r \<Longrightarrow>
   stored_callbacks w = map External (action_functions (CallShow r))"
  by (cases r)
    (auto simp: stored_callbacks_def given_functions_def external_request_def
      split: option.splits)

lemma unreachable_act:
  assumes "unreachable p w"
  shows "unreachable p (act w a)"
proof -
  have p: "pending p (act w a)"
    using assms by (rule pending_act)
  have l: "p < length (promises w)"
    using assms by (simp add: unreachable_def pending_def)
  have "list_all (\<lambda>c. \<not> settles p c) (stored_callbacks (act w a))"
  proof (cases "calls_show w a")
    case False
    then have "stored_callbacks (act w a) = stored_callbacks w"
      by (intro stored_callbacks_cong) (simp add: confirm_act)
    then show ?thesis
      using assms by (simp add: unreachable_def)
  next
    case True
    then have c: "confirm (act w a) = request_of w a"
      by (simp add: confirm_act)
    show ?thesis
    proof (cases a)
      case (CallConfirm cfg)
      then show ?thesis
        using c l by (simp add: stored_callbacks_request [where cfg = cfg])
    next
      case (RunBlockerEffect cfg)
      then show ?thesis
        using c l by (simp add: stored_callbacks_request [where cfg = cfg])
    next
      case (CallShow r)
      then show ?thesis
        using c by (simp add: stored_callbacks_external [where r = r] list_all_iff)
    next
      case (Click ctl)
      then show ?thesis using True by simp
    next
      case (Navigate b t)
      then show ?thesis using True by simp
    qed
  qed
  with p show ?thesis
    by (simp add: unreachable_def)
qed

lemma unmentioned_act:
  assumes "unmentioned ns w" and "fresh_for ns a"
  shows "unmentioned ns (act w a)"
proof (cases "calls_show w a")
  case False
  then have "stored_callbacks (act w a) = stored_callbacks w"
    by (intro stored_callbacks_cong) (simp add: confirm_act)
  then show ?thesis
    using assms(1) by (simp add: unmentioned_def)
next
  case True
  then have c: "confirm (act w a) = request_of w a"
    by (simp add: confirm_act)
  show ?thesis
  proof (cases a)
    case (CallConfirm cfg)
    then show ?thesis
      using c assms(2)
      by (auto simp: stored_callbacks_request [where cfg = cfg] unmentioned_def fresh_for_def
          given_functions_def list_all_iff split: option.splits)
  next
    case (RunBlockerEffect cfg)
    then show ?thesis
      using c assms(2)
      by (auto simp: stored_callbacks_request [where cfg = cfg] unmentioned_def fresh_for_def
          given_functions_def list_all_iff split: option.splits)
  next
    case (CallShow r)
    then show ?thesis
      using c assms(2)
      by (auto simp: stored_callbacks_external [where r = r] unmentioned_def fresh_for_def
          list_all_iff)
  next
    case (Click ctl)
    then show ?thesis using True by simp
  next
    case (Navigate b t)
    then show ?thesis using True by simp
  qed
qed

text \<open>
  The events of one action: calls made by the callbacks stored when it starts, and events
  that are no calls.
\<close>

lemma not_call_decision: "is_decision e \<Longrightarrow> \<not> fires p e \<and> \<not> calls n e"
  by (cases e) simp_all

lemma invocation_safe:
  "e \<in> set (invocation c) \<Longrightarrow>
   (\<not> settles p c \<longrightarrow> \<not> fires p e) \<and> (n \<notin> set (functions_of c) \<longrightarrow> \<not> calls n e)"
  by (cases c) (auto simp: user_calls_def split: option.splits)

lemma trace_usePrompt_confirm:
  "\<exists>evs. trace (snd (usePrompt_confirm cfg w)) = trace w @ evs \<and>
         (\<forall>e\<in>set evs. \<forall>p n. \<not> fires p e \<and> \<not> calls n e)"
  by (cases "isDirty_of cfg") (simp_all add: usePrompt_confirm_clean usePrompt_confirm_dirty)

lemma trace_blocker_effect:
  "\<exists>evs. trace (usePrompt_blocker_effect cfg w) = trace w @ evs \<and>
         (\<forall>e\<in>set evs. \<forall>p n. \<not> fires p e \<and> \<not> calls n e)"
proof (cases "blocker w")
  case Unblocked
  then show ?thesis by (simp add: usePrompt_blocker_effect_def)
next
  case (Blocked t)
  obtain q w1 where c: "usePrompt_confirm cfg w = (q, w1)"
    by (cases "usePrompt_confirm cfg w")
  have "trace (usePrompt_blocker_effect cfg w) = trace (snd (usePrompt_confirm cfg w))"
    using Blocked by (simp add: usePrompt_blocker_effect_def c)
  then show ?thesis
    using trace_usePrompt_confirm [of cfg w] by simp
qed

lemma trace_provider_paths:
  "\<exists>evs. trace (ConfirmProvider_onConfirm w) = trace w @ evs \<and>
         (\<forall>e\<in>set evs. (\<forall>p n. \<not> fires p e \<and> \<not> calls n e) \<or>
            (\<exists>c\<in>set (stored_callbacks w). e \<in> set (invocation c)))"
  "\<exists>evs. trace (ConfirmProvider_onCancel w) = trace w @ evs \<and>
         (\<forall>e\<in>set evs. (\<forall>p n. \<not> fires p e \<and> \<not> calls n e) \<or>
            (\<exists>c\<in>set (stored_callbacks w). e \<in> set (invocation c)))"
  by (auto simp: trace_onConfirm trace_onCancel stored_callbacks_def given_functions_def
      optional_invocation_def split: option.splits)

lemma trace_drain_after:
  assumes "\<exists>evs. trace w' = trace w @ evs \<and> (\<forall>e\<in>set evs. P e)"
    and "\<And>e. is_decision e \<Longrightarrow> P e"
  shows "\<exists>evs. trace (drain w') = trace w @ evs \<and> (\<forall>e\<in>set evs. P e)"
proof -
  obtain evs where a: "trace w' = trace w @ evs" "\<forall>e\<in>set evs. P e"
    using assms(1) by blast
  obtain ds where d: "list_all is_decision ds" "trace (drain w') = trace w' @ ds"
    using trace_drain by blast
  have "trace (drain w') = trace w @ (evs @ ds)" "\<forall>e\<in>set (evs @ ds). P e"
    using a d assms(2) by (auto simp: list_all_iff)
  then show ?thesis by blast
qed

lemma trace_act:
  "\<exists>evs. trace (act w a) = trace w @ evs \<and>
         (\<forall>e\<in>set evs. (\<forall>p n. \<not> fires p e \<and> \<not> calls n e) \<or>
            (\<exists>c\<in>set (stored_callbacks w). e \<in> set (invocation c)))"
proof (cases a)
  case (CallConfirm cfg)
  show ?thesis
    unfolding CallConfirm act.simps
    by (rule trace_drain_after) (use trace_usePrompt_confirm [of cfg w] not_call_decision in blast)+
next
  case (RunBlockerEffect cfg)
  show ?thesis
    unfolding RunBlockerEffect act.simps
    by (rule trace_drain_after) (use trace_blocker_effect [of cfg w] not_call_decision in blast)+
next
  case (CallShow r)
  have "\<exists>evs. trace (ConfirmProvider_show (map_option external_request r) w) = trace w @ evs \<and>
         (\<forall>e\<in>set evs. \<forall>p n. \<not> fires p e \<and> \<not> calls n e)"
    by simp
  then show ?thesis
    unfolding CallShow act.simps
    by (intro trace_drain_after) (use not_call_decision in blast)+
next
  case (Click ctl)
  show ?thesis
    unfolding Click act.simps
    by (cases ctl; simp only: click_eq; rule trace_drain_after)
      (use trace_provider_paths [of w] not_call_decision in blast)+
next
  case (Navigate b t)
  then show ?thesis
    by (simp add: router_navigate_def split: blocker_state.splits)
qed

lemma act_quiet:
  "\<exists>evs. trace (act w a) = trace w @ evs \<and>
         (unreachable p w \<longrightarrow> unfired p evs) \<and> (unmentioned ns w \<longrightarrow> uncalled ns evs)"
proof -
  obtain evs where e: "trace (act w a) = trace w @ evs"
    "\<forall>e\<in>set evs. (\<forall>p n. \<not> fires p e \<and> \<not> calls n e) \<or>
            (\<exists>c\<in>set (stored_callbacks w). e \<in> set (invocation c))"
    using trace_act by blast
  have "unfired p evs" if "unreachable p w"
    using that e(2) invocation_safe [where p = p]
    by (fastforce simp: unfired_def unreachable_def list_all_iff)
  moreover have "uncalled ns evs" if "unmentioned ns w"
    using that e(2) invocation_safe
    by (fastforce simp: uncalled_def unmentioned_def list_all_iff)
  ultimately show ?thesis
    using e(1) by blast
qed

lemma acts_Cons [simp]: "acts (a # as) w = acts as (act w a)" and acts_Nil [simp]: "acts [] w = w"
  by (simp_all add: acts_def)

lemma acts_unreachable:
  "unreachable p w \<Longrightarrow>
   unreachable p (acts as w) \<and> (\<exists>evs. trace (acts as w) = trace w @ evs \<and> unfired p evs)"
proof (induction as arbitrary: w)
  case Nil
  then show ?case by (simp add: unfired_def)
next
  case (Cons a as)
  obtain e1 where e1: "trace (act w a) = trace w @ e1" "unfired p e1"
    using act_quiet [of w a p "[]"] Cons.prems by blast
  have u: "unreachable p (act w a)"
    using Cons.prems by (rule unreachable_act)
  obtain e2 where e2: "trace (acts as (act w a)) = trace (act w a) @ e2" "unfired p e2"
    using Cons.IH [OF u] by blast
  have "trace (acts (a # as) w) = trace w @ (e1 @ e2)" "unfired p (e1 @ e2)"
    using e1 e2 by (simp_all add: unfired_def)
  then show ?case
    using Cons.IH [OF u] by auto
qed

lemma acts_unmentioned:
  "unmentioned ns w \<Longrightarrow> list_all (fresh_for ns) as \<Longrightarrow>
   unmentioned ns (acts as w) \<and> (\<exists>evs. trace (acts as w) = trace w @ evs \<and> uncalled ns evs)"
proof (induction as arbitrary: w)
  case Nil
  then show ?case by (simp add: uncalled_def)
next
  case (Cons a as)
  obtain e1 where e1: "trace (act w a) = trace w @ e1" "uncalled ns e1"
    using act_quiet [of w a 0 ns] Cons.prems(1) by blast
  have u: "unmentioned ns (act w a)"
    using Cons.prems by (simp add: unmentioned_act)
  have f: "list_all (fresh_for ns) as"
    using Cons.prems(2) by simp
  obtain e2 where e2: "trace (acts as (act w a)) = trace (act w a) @ e2" "uncalled ns e2"
    using Cons.IH [OF u f] by blast
  have "trace (acts (a # as) w) = trace w @ (e1 @ e2)" "uncalled ns (e1 @ e2)"
    using e1 e2 by (simp_all add: uncalled_def)
  then show ?case
    using Cons.IH [OF u f] by auto
qed

lemma show_action_pending:
  "calls_show w a \<Longrightarrow> pending p w \<Longrightarrow> pending p (act w a)"
  by (cases a) (simp_all add: pending_usePrompt_confirm pending_blocker_effect)

lemma show_action_abandons:
  assumes "calls_show w a" and "pending p w"
  shows "unreachable p (act w a)"
proof -
  have l: "p < length (promises w)"
    using assms(2) by (simp add: pending_def)
  have c: "confirm (act w a) = request_of w a"
    using assms(1) by (simp add: confirm_act)
  have "list_all (\<lambda>c. \<not> settles p c) (stored_callbacks (act w a))"
  proof (cases a)
    case (CallConfirm cfg)
    then show ?thesis
      using c l by (simp add: stored_callbacks_request [where cfg = cfg])
  next
    case (RunBlockerEffect cfg)
    then show ?thesis
      using c l by (simp add: stored_callbacks_request [where cfg = cfg])
  next
    case (CallShow r)
    then show ?thesis
      using c by (simp add: stored_callbacks_external [where r = r] list_all_iff)
  next
    case (Click ctl)
    then show ?thesis using assms(1) by simp
  next
    case (Navigate b t)
    then show ?thesis using assms(1) by simp
  qed
  then show ?thesis
    using show_action_pending [OF assms] by (simp add: unreachable_def)
qed

lemma show_action_forgets:
  assumes "calls_show w a" and "fresh_for ns a"
  shows "unmentioned ns (act w a)"
proof -
  have c: "confirm (act w a) = request_of w a"
    using assms(1) by (simp add: confirm_act)
  show ?thesis
  proof (cases a)
    case (CallConfirm cfg)
    then show ?thesis
      using c assms(2)
      by (auto simp: stored_callbacks_request [where cfg = cfg] unmentioned_def fresh_for_def
          given_functions_def list_all_iff split: option.splits)
  next
    case (RunBlockerEffect cfg)
    then show ?thesis
      using c assms(2)
      by (auto simp: stored_callbacks_request [where cfg = cfg] unmentioned_def fresh_for_def
          given_functions_def list_all_iff split: option.splits)
  next
    case (CallShow r)
    then show ?thesis
      using c assms(2)
      by (auto simp: stored_callbacks_external [where r = r] unmentioned_def fresh_for_def
          list_all_iff)
  next
    case (Click ctl)
    then show ?thesis using assms(1) by simp
  next
    case (Navigate b t)
    then show ?thesis using assms(1) by simp
  qed
qed

lemma show_action_silent:
  assumes "calls_show w a"
  shows "\<exists>evs. trace (act w a) = trace w @ evs \<and> unfired p evs \<and> uncalled ns evs"
proof -
  have "\<exists>evs. trace (act w a) = trace w @ evs \<and>
          (\<forall>e\<in>set evs. \<forall>p n. \<not> fires p e \<and> \<not> calls n e)"
  proof (cases a)
    case (CallConfirm cfg)
    show ?thesis
      unfolding CallConfirm act.simps
      by (rule trace_drain_after) (use trace_usePrompt_confirm [of cfg w] not_call_decision in blast)+
  next
    case (RunBlockerEffect cfg)
    show ?thesis
      unfolding RunBlockerEffect act.simps
      by (rule trace_drain_after) (use trace_blocker_effect [of cfg w] not_call_decision in blast)+
  next
    case (CallShow r)
    have "\<exists>evs. trace (ConfirmProvider_show (map_option external_request r) w) = trace w @ evs \<and>
           (\<forall>e\<in>set evs. \<forall>p n. \<not> fires p e \<and> \<not> calls n e)"
      by simp
    then show ?thesis
      unfolding CallShow act.simps
      by (intro trace_drain_after) (use not_call_decision in blast)+
  next
    case (Click ctl)
    then show ?thesis using assms by simp
  next
    case (Navigate b t)
    then show ?thesis using assms by simp
  qed
  then show ?thesis
    by (auto simp: unfired_def uncalled_def list_all_iff)
qed

lemma first_request_pending:
  assumes "calls_show w a" and "a = CallConfirm cfg \<or> a = RunBlockerEffect cfg"
  shows "pending (length (promises w)) (act w a)"
  using assms
  by (auto simp: usePrompt_confirm_dirty usePrompt_blocker_effect_def pending_def nth_append
      Promise_then_def ConfirmProvider_show_def toggle_def setConfirm_def emit_def
      split: blocker_state.splits)

text \<open>
  C5. Of two calls of \<open>show\<close>, the second made while the request of the first is still
  displayed, the second wins: the coordinator holds the second request. Whatever happens
  afterwards (clicks, further requests, navigation), the functions the first request
  carried are not called, as long as no later request carries them again; and when the
  first call came from a guard's \<open>confirm()\<close>, the closures built for it are never called
  and its promise stays pending.
\<close>

theorem overwritten_request_never_fires:
  fixes cfg1 :: "nat PromptOptions" and rest :: "action list"
  assumes "calls_show w first" and "calls_show (act w first) second"
  defines "w1 \<equiv> act w first"
  defines "w2 \<equiv> act (act w first) second"
  defines "w3 \<equiv> acts rest (act (act w first) second)"
  defines "p1 \<equiv> length (promises w)"
  shows "confirm w1 = request_of w first \<and>
         confirm w2 = request_of w1 second \<and>
         (list_all (fresh_for (action_functions first)) (second # rest) \<longrightarrow>
            uncalled (action_functions first) (events_since w w3)) \<and>
         (first = CallConfirm cfg1 \<or> first = RunBlockerEffect cfg1 \<longrightarrow>
            confirm w1 = Some (confirm_request cfg1 p1) \<and> pending p1 w1 \<and>
            pending p1 w3 \<and> unfired p1 (events_since w w3))"
proof -
  have c1: "confirm w1 = request_of w first"
    using assms(1) by (simp add: w1_def confirm_act)
  have c2: "confirm w2 = request_of w1 second"
    using assms(2) by (simp add: w1_def w2_def confirm_act)
  have called: "uncalled (action_functions first) (events_since w w3)"
    if f: "list_all (fresh_for (action_functions first)) (second # rest)"
  proof -
    let ?ns = "action_functions first"
    obtain e1 where e1: "trace w1 = trace w @ e1" "uncalled ?ns e1"
      using show_action_silent [OF assms(1)] unfolding w1_def by blast
    obtain e2 where e2: "trace w2 = trace w1 @ e2" "uncalled ?ns e2"
      using show_action_silent [OF assms(2)] unfolding w1_def w2_def by blast
    have "unmentioned ?ns w2"
      unfolding w2_def using assms(2) f by (intro show_action_forgets) simp_all
    moreover have "list_all (fresh_for ?ns) rest"
      using f by simp
    ultimately obtain e3 where e3: "trace w3 = trace w2 @ e3" "uncalled ?ns e3"
      using acts_unmentioned [of ?ns w2 rest] unfolding w3_def w2_def by blast
    have "trace w3 = trace w @ (e1 @ e2 @ e3)" "uncalled ?ns (e1 @ e2 @ e3)"
      using e1 e2 e3 by (simp_all add: uncalled_def)
    then show ?thesis
      by (simp add: events_since_def)
  qed
  have promise: "confirm w1 = Some (confirm_request cfg1 p1) \<and> pending p1 w1 \<and>
                 pending p1 w3 \<and> unfired p1 (events_since w w3)"
    if g: "first = CallConfirm cfg1 \<or> first = RunBlockerEffect cfg1"
  proof -
    have r: "confirm w1 = Some (confirm_request cfg1 p1)"
      using c1 g by (auto simp: p1_def)
    have p: "pending p1 w1"
      unfolding w1_def p1_def using assms(1) g by (rule first_request_pending)
    obtain e1 where e1: "trace w1 = trace w @ e1" "unfired p1 e1"
      using show_action_silent [OF assms(1)] unfolding w1_def by blast
    obtain e2 where e2: "trace w2 = trace w1 @ e2" "unfired p1 e2"
      using show_action_silent [OF assms(2)] unfolding w1_def w2_def by blast
    have u: "unreachable p1 w2"
      unfolding w2_def using assms(2) p [unfolded w1_def] by (rule show_action_abandons)
    obtain e3 where e3: "unreachable p1 w3" "trace w3 = trace w2 @ e3" "unfired p1 e3"
      using acts_unreachable [OF u, of rest] unfolding w3_def w2_def by blast
    have "trace w3 = trace w @ (e1 @ e2 @ e3)" "unfired p1 (e1 @ e2 @ e3)"
      using e1 e2 e3 by (simp_all add: unfired_def)
    then have "unfired p1 (events_since w w3)"
      by (simp add: events_since_def)
    then show ?thesis
      using r p e3(1) by (simp add: unreachable_def)
  qed
  show ?thesis
    using c1 c2 called promise by blast
qed

text \<open>
  C5, for a guard with the functions 7 and 8 whose request is overwritten by another
  consumer's: after clicks, a further \<open>confirm()\<close> and a blocked navigation, 7 and 8 were
  not called and promise 0 is still pending.
\<close>

theorem overwritten_request_never_fires_witness:
  "calls_show (initial ''/contact'') (CallConfirm example_guard) \<and>
   calls_show (act (initial ''/contact'') (CallConfirm example_guard))
     (CallShow (Some other_request)) \<and>
   list_all (fresh_for [7, 8]) (CallShow (Some other_request) # later_actions) \<and>
   confirm (act (initial ''/contact'') (CallConfirm example_guard)) =
     Some (confirm_request example_guard 0) \<and>
   confirm (act (act (initial ''/contact'') (CallConfirm example_guard))
              (CallShow (Some other_request))) =
     Some (external_request other_request) \<and>
   uncalled [7, 8]
     (events_since (initial ''/contact'')
        (acts later_actions
           (act (act (initial ''/contact'') (CallConfirm example_guard))
              (CallShow (Some other_request))))) \<and>
   pending 0
     (acts later_actions
        (act (act (initial ''/contact'') (CallConfirm example_guard))
           (CallShow (Some other_request)))) \<and>
   unfired 0
     (events_since (initial ''/contact'')
        (acts later_actions
           (act (act (initial ''/contact'') (CallConfirm example_guard))
              (CallShow (Some other_request)))))"
proof -
  have a1: "calls_show (initial ''/contact'') (CallConfirm example_guard)"
    by (simp add: isDirty_of_def example_guard_def)
  have a2: "calls_show (act (initial ''/contact'') (CallConfirm example_guard))
              (CallShow (Some other_request))"
    by simp
  have af: "action_functions (CallConfirm example_guard) = [7, 8]"
    by (simp add: given_functions_def example_guard_def)
  have n: "length (promises (initial ''/contact'')) = 0"
    by (simp add: initial_def)
  have fr: "list_all (fresh_for [7, 8]) (CallShow (Some other_request) # later_actions)"
    by (simp add: fresh_for_def later_actions_def given_functions_def other_request_def
        default_guard_def)
  have rq: "request_of (act (initial ''/contact'') (CallConfirm example_guard))
              (CallShow (Some other_request)) = Some (external_request other_request)"
    by simp
  note t = overwritten_request_never_fires [OF a1 a2, where rest = later_actions
      and ?cfg1.0 = example_guard, unfolded af n rq]
  have c2: "confirm (act (act (initial ''/contact'') (CallConfirm example_guard))
              (CallShow (Some other_request))) = Some (external_request other_request)"
    using t [THEN conjunct2, THEN conjunct1] .
  have u: "uncalled [7, 8]
     (events_since (initial ''/contact'')
        (acts later_actions
           (act (act (initial ''/contact'') (CallConfirm example_guard))
              (CallShow (Some other_request)))))"
    using t [THEN conjunct2, THEN conjunct2, THEN conjunct1, THEN mp, OF fr] .
  have "CallConfirm example_guard = CallConfirm example_guard \<or>
        CallConfirm example_guard = RunBlockerEffect example_guard"
    by simp
  note k = t [THEN conjunct2, THEN conjunct2, THEN conjunct2, THEN mp, OF this]
  show ?thesis
    by (intro conjI)
      (rule a1 a2 fr c2 u k [THEN conjunct1] k [THEN conjunct2, THEN conjunct2, THEN conjunct1]
        k [THEN conjunct2, THEN conjunct2, THEN conjunct2])+
qed

end
